theory Spec2Isabelle
  imports Main "HOL-Library.Word"
begin

unbundle bit_operations_syntax

section \<open>Bytes, arrays and constants\<close>

text \<open>
  The stack moves bytes (\<open>byte\<close>, \<open>char\<close>) through fixed arrays. A byte is an
  8-bit word, a \<open>uint16_t\<close> a 16-bit word.
\<close>

type_synonym u8 = "8 word"
type_synonym u16 = "16 word"

text \<open>
  A cell of a C array that a function reads may lie behind the end of the array or may
  never have been written. Such a read has no defined value; it is modelled as
  \<open>None\<close>, a defined byte as \<open>Some b\<close>.
\<close>

type_synonym cell = "u8 option"

definition byte_at :: "u8 list \<Rightarrow> nat \<Rightarrow> cell" where
  "byte_at xs i = (if i < length xs then Some (xs ! i) else None)"

text \<open>The payload length of the transceiver, from \<open>trx.h\<close>.\<close>

definition TRX_PAYLOAD_LENGTH :: nat where "TRX_PAYLOAD_LENGTH = 32"

text \<open>
  Modelled from the spec: the header \<open>networking_constants.h\<close>, which declares the
  lengths below, and \<open>transport.h\<close>, which declares the segment identifiers, are
  not in the source tree. The lengths are those of section 6 of the specification
  (frame header 1, packet header 3, \<open>MAX_PACKET_LEN = 31\<close>,
  \<open>MAX_SEGMENT_LEN = 28\<close>, segment headers 7, 7, 5 and 5); the identifiers are
  those of its glossary and of the layout comment at the head of the transport layer
  (0x07, 0x0D, 0x09, 0x0A).
\<close>

definition FRAME_HEADER_LEN :: nat where "FRAME_HEADER_LEN = 1"
definition PACKET_HEADER_LEN :: nat where "PACKET_HEADER_LEN = 3"
definition MAX_PACKET_LEN :: nat where "MAX_PACKET_LEN = 31"
definition MAX_SEGMENT_LEN :: nat where "MAX_SEGMENT_LEN = 28"

definition START_SEGMENT_HEADER_LEN :: nat where "START_SEGMENT_HEADER_LEN = 7"
definition DATA_SEGMENT_HEADER_LEN :: nat where "DATA_SEGMENT_HEADER_LEN = 7"
definition END_SEGMENT_HEADER_LEN :: nat where "END_SEGMENT_HEADER_LEN = 5"
definition ACK_SEGMENT_HEARDER_LEN :: nat where "ACK_SEGMENT_HEARDER_LEN = 5"

definition SEGID_START_OF_MESSAGE :: u8 where "SEGID_START_OF_MESSAGE = 0x07"
definition SEGID_DATA :: u8 where "SEGID_DATA = 0x0D"
definition SEGID_END_OF_MESSAGE :: u8 where "SEGID_END_OF_MESSAGE = 0x09"
definition SEGID_ACK :: u8 where "SEGID_ACK = 0x0A"

text \<open>The delays and the attempt limit, as the transport layer defines them.\<close>

definition TRANSPORT_TX_ACK_TIMEOUT_MS :: nat where "TRANSPORT_TX_ACK_TIMEOUT_MS = 1500"
definition TRANSPORT_TX_ACK_DELAY_MS :: nat where "TRANSPORT_TX_ACK_DELAY_MS = 250"
definition TRANSPORT_TX_SEGMENT_SPACING_MS :: nat where "TRANSPORT_TX_SEGMENT_SPACING_MS = 250"
definition TRANSPORT_TX_RETRY_DELAY_MS :: nat where "TRANSPORT_TX_RETRY_DELAY_MS = 250"
definition TRANSPORT_TX_ATTEMPT_LIMIT :: nat where "TRANSPORT_TX_ATTEMPT_LIMIT = 10"

text \<open>
  The per-node configuration (\<open>cube_parameters.h\<close>, \<open>address.h\<close>) and the
  port table (\<open>address_resolution.c\<close>) are compiled in per node and are not in the
  source tree: they are parameters of every function that uses them.
\<close>

record node_config =
  MY_PORT :: u8
  MY_NETWORK_ADDR :: u8
  resolve_network_addr :: "u8 \<Rightarrow> u8"

section \<open>Transport layer: what it does to the network layer\<close>

text \<open>
  The transport layer calls \<open>network_rx(buffer, buf_len, timeout_ms)\<close> and
  \<open>network_tx(payload, payload_len, dest, src)\<close>. The timed \<open>network_rx\<close> it is
  written against is not in the source tree, so each of its returns is an input of the
  model: the outcome and, on success, the contents of the caller's array after the call
  (the list holds the array from index 0 as far as its bytes are defined; a read behind
  the list has no defined value). A list of such returns is the future of the radio;
  when the list is used up the next \<open>network_rx\<close> never returns and the model yields
  \<open>None\<close>.
  Each call of \<open>network_tx\<close> and of \<open>_delay_ms\<close> is recorded, in order.
\<close>

datatype network_rx_result =
    NETWORK_RX_SUCCESS "u8 list"
  | NETWORK_RX_TIMEOUT
  | NETWORK_RX_ERROR

datatype effect =
    NetworkTx "u8 list" nat u8 u8
  | DelayMs nat

section \<open>Transport layer: receiver\<close>

datatype transport_attempt_rx_result =
    TRANSPORT_ATTEMPT_RX_SUCCESS
  | TRANSPORT_ATTEMPT_RX_OUTDATED
  | TRANSPORT_ATTEMPT_RX_TIMEOUT
  | TRANSPORT_ATTEMPT_RX_ERROR

text \<open>The ACK segment \<open>transport_attempt_rx\<close> builds in \<open>ack_seg\<close>.\<close>

definition ack_seg :: "node_config \<Rightarrow> u8 list \<Rightarrow> u8 list" where
  "ack_seg cfg segment =
     [of_nat ACK_SEGMENT_HEARDER_LEN,
      (if segment ! 1 = 0 then 1 else 0),
      segment ! 3,
      MY_PORT cfg,
      SEGID_ACK]"

text \<open>What \<open>transport_attempt_rx\<close> does to acknowledge: the delay, then the transmission.\<close>

definition ack_effects :: "node_config \<Rightarrow> u8 list \<Rightarrow> effect list" where
  "ack_effects cfg segment =
     [DelayMs TRANSPORT_TX_ACK_DELAY_MS,
      NetworkTx (ack_seg cfg segment) ACK_SEGMENT_HEARDER_LEN
        (resolve_network_addr cfg (segment ! 3)) (MY_NETWORK_ADDR cfg)]"

text \<open>
  The first thing \<open>transport_attempt_rx\<close> does with a segment:
  \<^verbatim>\<open>if (segment[4] == SEGID_START_OF_MESSAGE) rx_seq = segment[1];\<close>
\<close>

definition synchronize :: "u8 list \<Rightarrow> u8 \<Rightarrow> u8" where
  "synchronize segment rx_seq =
     (if segment ! 4 = SEGID_START_OF_MESSAGE then segment ! 1 else rx_seq)"

text \<open>
  \<open>transport_attempt_rx\<close>: \<open>rx_seq\<close> is the function's static variable, passed
  in and returned. The result is the return value, the new \<open>rx_seq\<close> and the effects
  of the call in the order they happen.
\<close>

definition transport_attempt_rx ::
  "node_config \<Rightarrow> u8 \<Rightarrow> network_rx_result \<Rightarrow> transport_attempt_rx_result \<times> u8 \<times> effect list"
where
  "transport_attempt_rx cfg rx_seq result =
     (case result of
        NETWORK_RX_TIMEOUT \<Rightarrow> (TRANSPORT_ATTEMPT_RX_TIMEOUT, rx_seq, [])
      | NETWORK_RX_ERROR \<Rightarrow> (TRANSPORT_ATTEMPT_RX_ERROR, rx_seq, [])
      | NETWORK_RX_SUCCESS segment \<Rightarrow>
          (let rx_seq1 = synchronize segment rx_seq;
               acked = ack_effects cfg segment
           in if rx_seq1 \<noteq> segment ! 1
              then (TRANSPORT_ATTEMPT_RX_OUTDATED, rx_seq1, acked)
              else (TRANSPORT_ATTEMPT_RX_SUCCESS, (if rx_seq1 = 0 then 1 else 0), acked)))"

datatype transport_keep_trying_to_rx_result =
    TRANSPORT_KEEP_TRYING_TO_RX_SUCCESS
  | TRANSPORT_KEEP_TRYING_TO_RX_TIMEOUT
  | TRANSPORT_KEEP_TRYING_TO_RX_ERROR

text \<open>
  \<open>transport_keep_trying_to_rx\<close>: the \<open>while(true)\<close> around
  \<open>transport_attempt_rx\<close>. It returns on Success and on Timeout; on Outdated and on
  Error the \<open>switch\<close> only breaks and the loop goes round again. The result carries
  the segment array as the successful attempt left it, the new \<open>rx_seq\<close>, the effects
  and the unused rest of the radio's future.
\<close>

fun transport_keep_trying_to_rx ::
  "node_config \<Rightarrow> u8 \<Rightarrow> network_rx_result list \<Rightarrow>
   (transport_keep_trying_to_rx_result \<times> u8 list \<times> u8 \<times> effect list \<times> network_rx_result list) option"
where
  "transport_keep_trying_to_rx cfg rx_seq [] = None"
| "transport_keep_trying_to_rx cfg rx_seq (ev # evs) =
     (case transport_attempt_rx cfg rx_seq ev of
        (TRANSPORT_ATTEMPT_RX_SUCCESS, rx_seq', eff) \<Rightarrow>
          Some (TRANSPORT_KEEP_TRYING_TO_RX_SUCCESS,
                (case ev of NETWORK_RX_SUCCESS segment \<Rightarrow> segment | _ \<Rightarrow> []),
                rx_seq', eff, evs)
      | (TRANSPORT_ATTEMPT_RX_OUTDATED, rx_seq', eff) \<Rightarrow>
          map_option (\<lambda>(r, segment, s, eff', rest). (r, segment, s, eff @ eff', rest))
            (transport_keep_trying_to_rx cfg rx_seq' evs)
      | (TRANSPORT_ATTEMPT_RX_TIMEOUT, rx_seq', eff) \<Rightarrow>
          Some (TRANSPORT_KEEP_TRYING_TO_RX_TIMEOUT, [], rx_seq', eff, evs)
      | (TRANSPORT_ATTEMPT_RX_ERROR, rx_seq', eff) \<Rightarrow>
          map_option (\<lambda>(r, segment, s, eff', rest). (r, segment, s, eff @ eff', rest))
            (transport_keep_trying_to_rx cfg rx_seq' evs))"

lemma transport_keep_trying_to_rx_consumes:
  "transport_keep_trying_to_rx cfg s evs = Some (r, segment, s', eff, rest) \<Longrightarrow>
     length rest < length evs"
proof (induction evs arbitrary: s r segment s' eff rest)
  case Nil
  then show ?case by simp
next
  case (Cons ev evs)
  obtain a b c where att: "transport_attempt_rx cfg s ev = (a, b, c)"
    by (cases "transport_attempt_rx cfg s ev") auto
  show ?case
  proof (cases a)
    case TRANSPORT_ATTEMPT_RX_SUCCESS
    with Cons.prems att show ?thesis by auto
  next
    case TRANSPORT_ATTEMPT_RX_OUTDATED
    with Cons.prems att obtain eff' where
      "transport_keep_trying_to_rx cfg b evs = Some (r, segment, s', eff', rest)"
      by auto
    from Cons.IH [OF this] show ?thesis by simp
  next
    case TRANSPORT_ATTEMPT_RX_TIMEOUT
    with Cons.prems att show ?thesis by auto
  next
    case TRANSPORT_ATTEMPT_RX_ERROR
    with Cons.prems att obtain eff' where
      "transport_keep_trying_to_rx cfg b evs = Some (r, segment, s', eff', rest)"
      by auto
    from Cons.IH [OF this] show ?thesis by simp
  qed
qed

datatype rx_state_t = RXST_Idle | RXST_Receiving

datatype transport_rx_result =
    TRANSPORT_RX_SUCCESS
  | TRANSPORT_RX_TIMEOUT
  | TRANSPORT_RX_ERROR

text \<open>
  What \<open>transport_rx\<close> works on: the static \<open>rx_seq\<close> of
  \<open>transport_attempt_rx\<close>, the local \<open>state\<close>, the caller's buffer, the two
  out-parameters (\<open>None\<close> while nothing has been stored through the pointer) and the
  stores into the caller's buffer, index and value, in the order they are made.
\<close>

record receiver =
  static_rx_seq :: u8
  rx_state :: rx_state_t
  rx_buffer :: "cell list"
  rx_message_len :: "u16 option"
  rx_source_port :: "u8 option"
  rx_stores :: "(nat \<times> cell) list"

definition apply_stores :: "cell list \<Rightarrow> (nat \<times> cell) list \<Rightarrow> cell list" where
  "apply_stores buffer ws = fold (\<lambda>(i, v) b. b[i := v]) ws buffer"

text \<open>
  The first loop of \<open>transport_rx\<close>:
  \<^verbatim>\<open>for (int i = 0; i < buf_len; i++) buffer[i] = 0;\<close>
  The counter is counted as a natural number; this is the \<open>int\<close> of the source as
  long as \<open>buf_len\<close> does not exceed the largest \<open>int\<close>.
\<close>

definition zero_stores :: "nat \<Rightarrow> (nat \<times> cell) list" where
  "zero_stores buf_len = map (\<lambda>i. (i, Some 0)) [0..<buf_len]"

text \<open>
  The length read as the source writes it, \<^verbatim>\<open>segment[5] << 8 + segment[6]\<close>. In C
  \<open>+\<close> binds tighter than \<open><<\<close>, so the shift count is \<open>8 + segment[6]\<close>; the
  value is then stored into a \<open>uint16_t\<close>. Where the count reaches the width of
  \<open>int\<close> C leaves the shift undefined; the definition takes the product
  \<open>segment[5] * 2 ^ (8 + segment[6])\<close> reduced to 16 bits everywhere, which is the
  value of the expression wherever C defines it.
\<close>

definition message_len_read :: "u8 list \<Rightarrow> u16" where
  "message_len_read segment = word_of_nat (push_bit (8 + unat (segment ! 6)) (unat (segment ! 5)))"

text \<open>The offset read of the DATA branch, \<^verbatim>\<open>(segment[5] << 8) + segment[6]\<close>.\<close>

definition offset_read :: "u8 list \<Rightarrow> nat" where
  "offset_read segment = (push_bit 8 (unat (segment ! 5)) + unat (segment ! 6)) mod 2 ^ 16"

text \<open>
  The copy loop of the DATA branch, from its counter \<open>i\<close> on:
  \<^verbatim>\<open>for (uint16_t i = 0; i < payload_len && i + offset < buf_len; i++)
      buffer[i + offset] = segment[i + DATA_SEGMENT_HEADER_LEN];\<close>
  \<open>i\<close>, \<open>offset\<close> and \<open>buf_len\<close> are \<open>uint16_t\<close>: on the 16-bit target
  \<open>i + offset\<close> is computed modulo \<open>2 ^ 16\<close>. The result is the list of stores.
\<close>

function copy_payload :: "u8 list \<Rightarrow> nat \<Rightarrow> nat \<Rightarrow> nat \<Rightarrow> nat \<Rightarrow> (nat \<times> cell) list" where
  "copy_payload segment payload_len offset buf_len i =
     (if i < payload_len \<and> (i + offset) mod 2 ^ 16 < buf_len
      then ((i + offset) mod 2 ^ 16, byte_at segment (i + DATA_SEGMENT_HEADER_LEN))
             # copy_payload segment payload_len offset buf_len (Suc i)
      else [])"
  by pat_completeness auto
termination
  by (relation "measure (\<lambda>(segment, payload_len, offset, buf_len, i). payload_len - i)") auto

declare copy_payload.simps [simp del]

text \<open>
  The \<open>switch(state)\<close> of \<open>transport_rx\<close> on one segment that the keep-trying
  wrapper handed over. The Boolean says whether \<open>transport_rx\<close> returns
  \<open>TRANSPORT_RX_SUCCESS\<close> here. \<open>ml_ptr\<close> and \<open>sp_ptr\<close> say whether the
  pointers \<open>message_len\<close> and \<open>source_port\<close> are non-NULL.
\<close>

definition rx_switch :: "nat \<Rightarrow> bool \<Rightarrow> bool \<Rightarrow> receiver \<Rightarrow> u8 list \<Rightarrow> bool \<times> receiver" where
  "rx_switch buf_len ml_ptr sp_ptr st segment =
     (let segment_len = segment ! 0;
          segment_identifier = segment ! 4
      in case rx_state st of
           RXST_Idle \<Rightarrow>
             if segment_identifier = SEGID_START_OF_MESSAGE
             then (False,
                   st\<lparr>rx_source_port := (if sp_ptr then Some (segment ! 3) else rx_source_port st),
                      rx_message_len := (if ml_ptr then Some (message_len_read segment)
                                         else rx_message_len st),
                      rx_state := RXST_Receiving\<rparr>)
             else (False, st)
         | RXST_Receiving \<Rightarrow>
             if segment_identifier = SEGID_DATA
             then (let offset = offset_read segment;
                       payload_len = unat (segment_len - of_nat DATA_SEGMENT_HEADER_LEN);
                       ws = copy_payload segment payload_len offset buf_len 0
                   in (False, st\<lparr>rx_buffer := apply_stores (rx_buffer st) ws,
                                  rx_stores := rx_stores st @ ws\<rparr>))
             else if segment_identifier = SEGID_END_OF_MESSAGE
             then (True, st\<lparr>rx_state := RXST_Idle\<rparr>)
             else if segment_identifier = SEGID_START_OF_MESSAGE
             then (False,
                   st\<lparr>rx_message_len := (if ml_ptr then Some (message_len_read segment)
                                         else rx_message_len st)\<rparr>)
             else (False, st))"

text \<open>
  The \<open>while(true)\<close> of \<open>transport_rx\<close>. \<open>None\<close>: the radio's future is used up
  before the loop returns.
\<close>

function rx_loop ::
  "node_config \<Rightarrow> nat \<Rightarrow> bool \<Rightarrow> bool \<Rightarrow> receiver \<Rightarrow> network_rx_result list \<Rightarrow>
   (transport_rx_result \<times> receiver \<times> effect list \<times> network_rx_result list) option"
where
  "rx_loop cfg buf_len ml_ptr sp_ptr st evs =
     (case transport_keep_trying_to_rx cfg (static_rx_seq st) evs of
        None \<Rightarrow> None
      | Some (result, segment, seq', eff, rest) \<Rightarrow>
          if result = TRANSPORT_KEEP_TRYING_TO_RX_TIMEOUT
          then Some (TRANSPORT_RX_TIMEOUT, st\<lparr>static_rx_seq := seq'\<rparr>, eff, rest)
          else if result = TRANSPORT_KEEP_TRYING_TO_RX_ERROR
          then Some (TRANSPORT_RX_ERROR, st\<lparr>static_rx_seq := seq'\<rparr>, eff, rest)
          else (case rx_switch buf_len ml_ptr sp_ptr (st\<lparr>static_rx_seq := seq'\<rparr>) segment of
                  (True, st') \<Rightarrow> Some (TRANSPORT_RX_SUCCESS, st', eff, rest)
                | (False, st') \<Rightarrow>
                    map_option (\<lambda>(r, st'', eff', rest'). (r, st'', eff @ eff', rest'))
                      (rx_loop cfg buf_len ml_ptr sp_ptr st' rest)))"
  by pat_completeness auto
termination
proof (relation "measure (\<lambda>(cfg, buf_len, ml_ptr, sp_ptr, st, evs). length evs)")
  show "wf (measure (\<lambda>(cfg, buf_len, ml_ptr, sp_ptr, st, evs). length evs))"
    by simp
next
  fix cfg :: node_config and buf_len :: nat and ml_ptr sp_ptr :: bool and st :: receiver
    and evs :: "network_rx_result list" and x2 x y xa ya xb yb xc rest xd and st' :: receiver
    and b :: bool
  assume "transport_keep_trying_to_rx cfg (static_rx_seq st) evs = Some x2"
    and "(x, y) = x2" and "(xa, ya) = y" and "(xb, yb) = ya" and "(xc, rest) = yb"
  then have "transport_keep_trying_to_rx cfg (static_rx_seq st) evs = Some (x, xa, xb, xc, rest)"
    by simp
  then have "length rest < length evs"
    by (rule transport_keep_trying_to_rx_consumes)
  then show "((cfg, buf_len, ml_ptr, sp_ptr, st', rest), cfg, buf_len, ml_ptr, sp_ptr, st, evs)
      \<in> measure (\<lambda>(cfg, buf_len, ml_ptr, sp_ptr, st, evs). length evs)"
    by simp
qed

declare rx_loop.simps [simp del]

text \<open>
  \<open>transport_rx\<close>: zero the caller's buffer, then run the loop from Idle.
  \<open>buffer\<close> is the caller's array as it is on entry, \<open>seq0\<close> the value of the
  static \<open>rx_seq\<close> on entry.
\<close>

definition transport_rx ::
  "node_config \<Rightarrow> u8 \<Rightarrow> cell list \<Rightarrow> u16 \<Rightarrow> bool \<Rightarrow> bool \<Rightarrow> network_rx_result list \<Rightarrow>
   (transport_rx_result \<times> receiver \<times> effect list \<times> network_rx_result list) option"
where
  "transport_rx cfg seq0 buffer buf_len ml_ptr sp_ptr evs =
     rx_loop cfg (unat buf_len) ml_ptr sp_ptr
       \<lparr>static_rx_seq = seq0,
        rx_state = RXST_Idle,
        rx_buffer = apply_stores buffer (zero_stores (unat buf_len)),
        rx_message_len = None,
        rx_source_port = None,
        rx_stores = zero_stores (unat buf_len)\<rparr>
       evs"

section \<open>Transport layer: transmitter\<close>

datatype transport_attempt_tx_result =
    TRANSPORT_ATTEMPT_TX_SUCCESS
  | TRANSPORT_ATTEMPT_TX_TRANSMIT_FAILED
  | TRANSPORT_ATTEMPT_TX_NOT_ACKNOWLEDGED
  | TRANSPORT_ATTEMPT_TX_OLD_ACK
  | TRANSPORT_ATTEMPT_TX_NOT_AN_ACK
  | TRANSPORT_ATTEMPT_TX_ERROR

text \<open>
  \<open>transport_attempt_tx\<close>: hand the segment to \<open>network_tx\<close> (its result is
  assigned and never read), then classify what \<open>network_rx\<close> returns into
  \<open>hopefully_an_ack\<close>. \<open>segment\<close> holds the first \<open>segment_len\<close> bytes of the
  caller's array, the bytes \<open>network_tx\<close> is asked to send.
\<close>

definition transport_attempt_tx ::
  "node_config \<Rightarrow> u8 list \<Rightarrow> nat \<Rightarrow> u8 \<Rightarrow> u8 \<Rightarrow> network_rx_result \<Rightarrow>
   transport_attempt_tx_result \<times> effect list"
where
  "transport_attempt_tx cfg segment segment_len dest_port current_seq_num rx_result =
     (let sent = [NetworkTx segment segment_len (resolve_network_addr cfg dest_port)
                    (MY_NETWORK_ADDR cfg)]
      in case rx_result of
           NETWORK_RX_TIMEOUT \<Rightarrow> (TRANSPORT_ATTEMPT_TX_NOT_ACKNOWLEDGED, sent)
         | NETWORK_RX_ERROR \<Rightarrow> (TRANSPORT_ATTEMPT_TX_ERROR, sent)
         | NETWORK_RX_SUCCESS hopefully_an_ack \<Rightarrow>
             if hopefully_an_ack ! 4 \<noteq> SEGID_ACK then (TRANSPORT_ATTEMPT_TX_NOT_AN_ACK, sent)
             else if hopefully_an_ack ! 1 = current_seq_num then (TRANSPORT_ATTEMPT_TX_OLD_ACK, sent)
             else (TRANSPORT_ATTEMPT_TX_SUCCESS, sent))"

datatype transport_keep_trying_to_tx_result =
    TRANSPORT_KEEP_TRYING_TO_TX_SUCCESS
  | TRANSPORT_KEEP_TRYING_TO_TX_REACHED_ATTEMPT_LIMIT
  | TRANSPORT_KEEP_TRYING_TO_TX_ERROR

text \<open>
  The \<open>while(true)\<close> of \<open>transport_keep_trying_to_tx\<close>, from a given value of
  \<open>transmit_attempts\<close>: count the attempt, give up above the limit, otherwise
  attempt; return on Success and on Error, else wait and go round again.
\<close>

fun keep_trying_to_tx_loop ::
  "node_config \<Rightarrow> u8 list \<Rightarrow> nat \<Rightarrow> u8 \<Rightarrow> u8 \<Rightarrow> nat \<Rightarrow> network_rx_result list \<Rightarrow>
   (transport_keep_trying_to_tx_result \<times> effect list \<times> network_rx_result list) option"
where
  "keep_trying_to_tx_loop cfg segment segment_len dest_port current_seq_num transmit_attempts [] =
     (if transmit_attempts + 1 > TRANSPORT_TX_ATTEMPT_LIMIT
      then Some (TRANSPORT_KEEP_TRYING_TO_TX_REACHED_ATTEMPT_LIMIT, [], [])
      else None)"
| "keep_trying_to_tx_loop cfg segment segment_len dest_port current_seq_num transmit_attempts (ev # evs) =
     (if transmit_attempts + 1 > TRANSPORT_TX_ATTEMPT_LIMIT
      then Some (TRANSPORT_KEEP_TRYING_TO_TX_REACHED_ATTEMPT_LIMIT, [], ev # evs)
      else case transport_attempt_tx cfg segment segment_len dest_port current_seq_num ev of
             (TRANSPORT_ATTEMPT_TX_SUCCESS, eff) \<Rightarrow> Some (TRANSPORT_KEEP_TRYING_TO_TX_SUCCESS, eff, evs)
           | (TRANSPORT_ATTEMPT_TX_ERROR, eff) \<Rightarrow> Some (TRANSPORT_KEEP_TRYING_TO_TX_ERROR, eff, evs)
           | (_, eff) \<Rightarrow>
               map_option
                 (\<lambda>(r, eff', rest). (r, eff @ DelayMs TRANSPORT_TX_RETRY_DELAY_MS # eff', rest))
                 (keep_trying_to_tx_loop cfg segment segment_len dest_port current_seq_num
                    (transmit_attempts + 1) evs))"

definition transport_keep_trying_to_tx ::
  "node_config \<Rightarrow> u8 list \<Rightarrow> nat \<Rightarrow> u8 \<Rightarrow> u8 \<Rightarrow> network_rx_result list \<Rightarrow>
   (transport_keep_trying_to_tx_result \<times> effect list \<times> network_rx_result list) option"
where
  "transport_keep_trying_to_tx cfg segment segment_len dest_port current_seq_num evs =
     keep_trying_to_tx_loop cfg segment segment_len dest_port current_seq_num 0 evs"

datatype transport_tx_result =
    TRANSPORT_TX_SUCCESS
  | TRANSPORT_TX_REACHED_ATTEMPT_LIMIT
  | TRANSPORT_TX_ERROR

text \<open>
  The two bytes of a \<open>uint16_t\<close> as \<open>transport_tx\<close> stores them:
  \<^verbatim>\<open>(x & 0xFF00) >> 8\<close> and \<^verbatim>\<open>(x & 0x00FF) >> 0\<close>.
\<close>

definition high_byte :: "nat \<Rightarrow> u8" where
  "high_byte x = of_nat (drop_bit 8 (x AND 0xFF00))"

definition low_byte :: "nat \<Rightarrow> u8" where
  "low_byte x = of_nat (drop_bit 0 (x AND 0x00FF))"

text \<open>
  The three kinds of segment \<open>transport_tx\<close> builds in its array \<open>segment\<close>. Each
  list is the part of the array that is handed to \<open>network_tx\<close>, its first
  \<open>segment_len\<close> bytes.
\<close>

definition start_segment :: "node_config \<Rightarrow> nat \<Rightarrow> u8 \<Rightarrow> u8 \<Rightarrow> u8 list" where
  "start_segment cfg message_len dest_port current_seq_num =
     [of_nat START_SEGMENT_HEADER_LEN, current_seq_num, dest_port, MY_PORT cfg,
      SEGID_START_OF_MESSAGE, high_byte message_len, low_byte message_len]"

definition end_segment :: "node_config \<Rightarrow> u8 \<Rightarrow> u8 \<Rightarrow> u8 list" where
  "end_segment cfg dest_port current_seq_num =
     [of_nat END_SEGMENT_HEADER_LEN, current_seq_num, dest_port, MY_PORT cfg,
      SEGID_END_OF_MESSAGE]"

text \<open>
  One turn of the DATA loop, up to the call of the keep-trying wrapper:
  \<open>this_payload_len\<close>, \<open>start_address\<close> (a \<open>uint16_t\<close> difference) and the
  segment.
\<close>

definition this_payload_len :: "nat \<Rightarrow> nat" where
  "this_payload_len bytes_remaining =
     (if bytes_remaining > MAX_SEGMENT_LEN - DATA_SEGMENT_HEADER_LEN
      then MAX_SEGMENT_LEN - DATA_SEGMENT_HEADER_LEN
      else bytes_remaining)"

definition start_address :: "nat \<Rightarrow> nat \<Rightarrow> nat" where
  "start_address message_len bytes_remaining = (message_len + 2 ^ 16 - bytes_remaining) mod 2 ^ 16"

definition data_segment :: "node_config \<Rightarrow> u8 list \<Rightarrow> nat \<Rightarrow> u8 \<Rightarrow> u8 \<Rightarrow> nat \<Rightarrow> u8 list" where
  "data_segment cfg message message_len dest_port current_seq_num bytes_remaining =
     [of_nat (this_payload_len bytes_remaining + DATA_SEGMENT_HEADER_LEN), current_seq_num,
      dest_port, MY_PORT cfg, SEGID_DATA,
      high_byte (start_address message_len bytes_remaining),
      low_byte (start_address message_len bytes_remaining)]
     @ map (\<lambda>i. message ! (i + start_address message_len bytes_remaining))
         [0..<this_payload_len bytes_remaining]"

text \<open>
  The DATA loop of \<open>transport_tx\<close>. It ends with \<open>Inl r\<close> when \<open>transport_tx\<close>
  returns \<open>r\<close> from inside the loop and with \<open>Inr current_seq_num\<close> when
  \<open>bytes_remaining\<close> has reached 0.
\<close>

function tx_data_loop ::
  "node_config \<Rightarrow> u8 list \<Rightarrow> nat \<Rightarrow> u8 \<Rightarrow> nat \<Rightarrow> u8 \<Rightarrow> network_rx_result list \<Rightarrow>
   ((transport_tx_result + u8) \<times> effect list \<times> network_rx_result list) option"
where
  "tx_data_loop cfg message message_len dest_port bytes_remaining current_seq_num evs =
     (if bytes_remaining > 0
      then (case transport_keep_trying_to_tx cfg
                   (data_segment cfg message message_len dest_port current_seq_num bytes_remaining)
                   (this_payload_len bytes_remaining + DATA_SEGMENT_HEADER_LEN)
                   dest_port current_seq_num evs of
              None \<Rightarrow> None
            | Some (result, eff, rest) \<Rightarrow>
                if result = TRANSPORT_KEEP_TRYING_TO_TX_REACHED_ATTEMPT_LIMIT
                then Some (Inl TRANSPORT_TX_REACHED_ATTEMPT_LIMIT, eff, rest)
                else if result = TRANSPORT_KEEP_TRYING_TO_TX_ERROR
                then Some (Inl TRANSPORT_TX_ERROR, eff, rest)
                else map_option
                       (\<lambda>(r, eff', rest').
                          (r, eff @ DelayMs TRANSPORT_TX_SEGMENT_SPACING_MS # eff', rest'))
                       (tx_data_loop cfg message message_len dest_port
                          (bytes_remaining - this_payload_len bytes_remaining)
                          (if current_seq_num = 0 then 1 else 0) rest))
      else Some (Inr current_seq_num, [], evs))"
  by pat_completeness auto
termination
  by (relation "measure (\<lambda>(cfg, message, message_len, dest_port, bytes_remaining, current_seq_num, evs).
        bytes_remaining)")
     (auto simp add: this_payload_len_def MAX_SEGMENT_LEN_def DATA_SEGMENT_HEADER_LEN_def)

declare tx_data_loop.simps [simp del]

text \<open>
  \<open>transport_tx\<close>: START_OF_MESSAGE with sequence number 0, the DATA loop,
  END_OF_MESSAGE; every segment goes through the keep-trying wrapper.
\<close>

definition transport_tx ::
  "node_config \<Rightarrow> u8 list \<Rightarrow> u16 \<Rightarrow> u8 \<Rightarrow> network_rx_result list \<Rightarrow>
   (transport_tx_result \<times> effect list \<times> network_rx_result list) option"
where
  "transport_tx cfg message message_len dest_port evs =
     (case transport_keep_trying_to_tx cfg (start_segment cfg (unat message_len) dest_port 0)
             START_SEGMENT_HEADER_LEN dest_port 0 evs of
        None \<Rightarrow> None
      | Some (result, eff, rest) \<Rightarrow>
          if result = TRANSPORT_KEEP_TRYING_TO_TX_REACHED_ATTEMPT_LIMIT
          then Some (TRANSPORT_TX_REACHED_ATTEMPT_LIMIT, eff, rest)
          else if result = TRANSPORT_KEEP_TRYING_TO_TX_ERROR
          then Some (TRANSPORT_TX_ERROR, eff, rest)
          else (case tx_data_loop cfg message (unat message_len) dest_port (unat message_len) 1 rest of
                  None \<Rightarrow> None
                | Some (Inl r, eff2, rest2) \<Rightarrow>
                    Some (r, eff @ DelayMs TRANSPORT_TX_SEGMENT_SPACING_MS # eff2, rest2)
                | Some (Inr current_seq_num, eff2, rest2) \<Rightarrow>
                    (case transport_keep_trying_to_tx cfg (end_segment cfg dest_port current_seq_num)
                            END_SEGMENT_HEADER_LEN dest_port current_seq_num rest2 of
                       None \<Rightarrow> None
                     | Some (result3, eff3, rest3) \<Rightarrow>
                         if result3 = TRANSPORT_KEEP_TRYING_TO_TX_REACHED_ATTEMPT_LIMIT
                         then Some (TRANSPORT_TX_REACHED_ATTEMPT_LIMIT,
                                    eff @ DelayMs TRANSPORT_TX_SEGMENT_SPACING_MS # eff2 @ eff3, rest3)
                         else if result3 = TRANSPORT_KEEP_TRYING_TO_TX_ERROR
                         then Some (TRANSPORT_TX_ERROR,
                                    eff @ DelayMs TRANSPORT_TX_SEGMENT_SPACING_MS # eff2 @ eff3, rest3)
                         else Some (TRANSPORT_TX_SUCCESS,
                                    eff @ DelayMs TRANSPORT_TX_SEGMENT_SPACING_MS # eff2 @ eff3, rest3))))"

text \<open>
  Reading a trace: the payloads handed to \<open>network_tx\<close>, in order; the effects of one
  attempt and of one attempt that is tried again; and the classifications after which
  \<open>transport_keep_trying_to_tx\<close> goes round again (it returns only on Success and
  on Error).
\<close>

fun tx_payloads :: "effect list \<Rightarrow> u8 list list" where
  "tx_payloads [] = []"
| "tx_payloads (NetworkTx payload payload_len dest src # es) = payload # tx_payloads es"
| "tx_payloads (DelayMs ms # es) = tx_payloads es"

definition attempt_effects :: "node_config \<Rightarrow> u8 list \<Rightarrow> nat \<Rightarrow> u8 \<Rightarrow> effect list" where
  "attempt_effects cfg segment segment_len dest_port =
     [NetworkTx segment segment_len (resolve_network_addr cfg dest_port) (MY_NETWORK_ADDR cfg)]"

definition retry_effects :: "node_config \<Rightarrow> u8 list \<Rightarrow> nat \<Rightarrow> u8 \<Rightarrow> effect list" where
  "retry_effects cfg segment segment_len dest_port =
     [NetworkTx segment segment_len (resolve_network_addr cfg dest_port) (MY_NETWORK_ADDR cfg),
      DelayMs TRANSPORT_TX_RETRY_DELAY_MS]"

definition tried_again :: "transport_attempt_tx_result \<Rightarrow> bool" where
  "tried_again r \<longleftrightarrow> r \<noteq> TRANSPORT_ATTEMPT_TX_SUCCESS \<and> r \<noteq> TRANSPORT_ATTEMPT_TX_ERROR"






section \<open>Network layer (the untimed \<open>network.c\<close>)\<close>

text \<open>
  \<open>network.c\<close> works on \<open>char\<close> arrays and \<open>int\<close> lengths and addresses. A
  \<open>char\<close> is a byte; read as an \<open>int\<close> it is the signed value of the byte (plain
  \<open>char\<close> is signed for the compiler the Makefile names), and an \<open>int\<close> stored
  into a \<open>char\<close> keeps its low eight bits. \<open>INT_MAX\<close> is that of the 16-bit
  target.
\<close>

definition INT_MAX :: int where "INT_MAX = 32767"

text \<open>
  \<open>next_hop\<close>: the \<open>switch\<close> has no \<open>default\<close>, so for any other address
  \<open>next_hop_addr\<close> is returned as it was declared, without a value (\<open>None\<close>).
\<close>

definition next_hop :: "int \<Rightarrow> int option" where
  "next_hop final_addr =
     (if final_addr = 0x0A then Some 0x0B
      else if final_addr = 0x0B then Some 0x0B
      else if final_addr = 0x0C then Some 0x0B
      else if final_addr = 0x0D then Some 0x0B
      else None)"

text \<open>
  What \<open>network_tx\<close> does in the end is one call
  \<open>data_link_tx(packet, packet_len, resolve_data_link_addr(next_hop_addr))\<close>; the call
  is recorded with the cells of the array \<open>packet\<close>, the length and the address.
  \<open>data_link_tx\<close> (\<open>data_link.c\<close>) takes its length as
  \<open>byte payload_len\<close>, an unsigned 8-bit integer: the \<open>int\<close> that
  \<open>network_tx\<close> passes arrives as its low eight bits.
  \<open>resolve_data_link_addr\<close> (\<open>address_resolution.c\<close>) is not in the source tree
  and is a parameter.
\<close>

record data_link_tx_call =
  dl_payload :: "cell list"
  dl_payload_len :: u8
  dl_addr :: "32 word option"

text \<open>
  \<open>network_tx\<close>. The array \<open>char packet[packet_len]\<close> gets its three header
  bytes, each an \<open>int\<close> stored into a \<open>char\<close>, and then \<open>payload[i]\<close> at
  \<open>packet[i + PACKET_HEADER_LEN]\<close> for \<open>i < payload_len\<close> and
  \<open>i < MAX_PACKET_LEN - PACKET_HEADER_LEN\<close>; the cells behind stay unwritten.
  \<open>payload\<close> holds the bytes of the caller's array. With a negative
  \<open>payload_len\<close> the array is too short for its header, and with
  \<open>payload_len + PACKET_HEADER_LEN\<close> above \<open>INT_MAX\<close> the sum overflows: the
  behaviour is undefined and the model yields \<open>None\<close>.
\<close>

definition network_tx ::
  "(int \<Rightarrow> 32 word) \<Rightarrow> u8 list \<Rightarrow> int \<Rightarrow> int \<Rightarrow> int \<Rightarrow> data_link_tx_call option"
where
  "network_tx resolve_data_link_addr payload payload_len dest_network_addr src_network_addr =
     (if payload_len < 0 \<or> payload_len + int PACKET_HEADER_LEN > INT_MAX then None
      else
        (let packet_len = payload_len + int PACKET_HEADER_LEN;
             copied = min (nat payload_len) (MAX_PACKET_LEN - PACKET_HEADER_LEN)
         in Some \<lparr>dl_payload =
                     [Some (word_of_int packet_len),
                      Some (word_of_int dest_network_addr),
                      Some (word_of_int src_network_addr)]
                     @ map (byte_at payload) [0..<copied]
                     @ replicate (nat payload_len - copied) None,
                   dl_payload_len = word_of_int packet_len,
                   dl_addr = map_option resolve_data_link_addr (next_hop dest_network_addr)\<rparr>))"

datatype c_fault = UndefinedBehaviour

text \<open>
  \<open>network_rx\<close>. Each element of the list is the array \<open>packet\<close> as one call of
  \<open>data_link_rx(packet, MAX_PACKET_LEN)\<close> leaves it; when the list is used up
  \<open>data_link_rx\<close> blocks for ever. The result is the list of \<open>data_link_tx\<close> calls
  made while forwarding and the outcome: \<open>None\<close> when \<open>network_rx\<close> never returns,
  otherwise a fault or the cells stored into \<open>buffer\<close> (from index 0 on), the
  returned length and the packets not yet received.
\<close>

fun network_rx ::
  "node_config \<Rightarrow> (int \<Rightarrow> 32 word) \<Rightarrow> int \<Rightarrow> u8 list list \<Rightarrow>
   data_link_tx_call list \<times> (c_fault + cell list \<times> int \<times> u8 list list) option"
where
  "network_rx cfg resolve_data_link_addr buf_len [] = ([], None)"
| "network_rx cfg resolve_data_link_addr buf_len (packet # packets) =
     (let packet_len = sint (packet ! 0)
      in if sint (packet ! 1) \<noteq> uint (MY_NETWORK_ADDR cfg)
         then (case network_tx resolve_data_link_addr packet packet_len
                      (sint (packet ! 1)) (sint (packet ! 2)) of
                 None \<Rightarrow> ([], Some (Inl UndefinedBehaviour))
               | Some call \<Rightarrow>
                   (case network_rx cfg resolve_data_link_addr buf_len packets of
                      (calls, outcome) \<Rightarrow> (call # calls, outcome)))
         else ([],
               Some (Inr (map (\<lambda>i. byte_at packet (i + PACKET_HEADER_LEN))
                            [0..<nat (min (packet_len - int PACKET_HEADER_LEN) buf_len)],
                          packet_len - int PACKET_HEADER_LEN,
                          packets))))"

section \<open>Example nodes, segments and messages\<close>

text \<open>
  A cube at port and network address 0x0A, a rover at port 0x3C, a port table that
  maps each port to itself, the segments of a short conversation between them, and the
  first fifty bytes of the rover's greeting to the cube.
\<close>

definition cube_config :: node_config where
  "cube_config = \<lparr>MY_PORT = 0x0A, MY_NETWORK_ADDR = 0x0A, resolve_network_addr = (\<lambda>p. p)\<rparr>"

definition rover_config :: node_config where
  "rover_config = \<lparr>MY_PORT = 0x3C, MY_NETWORK_ADDR = 0x0C, resolve_network_addr = (\<lambda>p. p)\<rparr>"

definition start_of_one_byte :: "u8 list" where
  "start_of_one_byte = [7, 0, 0x0A, 0x3C, 0x07, 0, 1]"

definition data_abc :: "u8 list" where
  "data_abc = [10, 1, 0x0A, 0x3C, 0x0D, 0, 0, 0x61, 0x62, 0x63]"

definition data_abc_at_2 :: "u8 list" where
  "data_abc_at_2 = [10, 1, 0x0A, 0x3C, 0x0D, 0, 2, 0x61, 0x62, 0x63]"

definition end_of_message :: "u8 list" where
  "end_of_message = [5, 0, 0x0A, 0x3C, 0x09]"

definition receiving :: receiver where
  "receiving = \<lparr>static_rx_seq = 1, rx_state = RXST_Receiving,
                 rx_buffer = [Some 0, Some 0, Some 0, Some 0],
                 rx_message_len = Some 3, rx_source_port = Some 0x3C,
                 rx_stores = [(0, Some 0), (1, Some 0), (2, Some 0), (3, Some 0)]\<rparr>"

definition ack_with :: "u8 \<Rightarrow> network_rx_result" where
  "ack_with s = NETWORK_RX_SUCCESS [5, s, 0x3C, 0x0A, 0x0A]"


text \<open>
  For the network layer: a forwarder at network address 0x0B, a table of data-link
  addresses, a packet on its way to 0x0C, a packet for the forwarder, and a full
  31-byte packet for 0x0C.
\<close>

definition forwarder_config :: node_config where
  "forwarder_config = \<lparr>MY_PORT = 0x0B, MY_NETWORK_ADDR = 0x0B, resolve_network_addr = (\<lambda>p. p)\<rparr>"

definition radio_addr :: "int \<Rightarrow> 32 word" where
  "radio_addr a = word_of_int (a * 0x01010101)"

definition packet_for_0c :: "u8 list" where
  "packet_for_0c = [7, 0x0C, 0x0A, 0x11, 0x22, 0x33, 0x44] @ replicate 24 0"

definition packet_for_0b :: "u8 list" where
  "packet_for_0b = [5, 0x0B, 0x0A, 0x55, 0x66] @ replicate 26 0"

definition full_packet :: "u8 list" where
  "full_packet = [31, 0x0C, 0x0A, 28, 0, 0x0C, 0x0A, 0x0D, 0, 0,
                  72, 101, 108, 108, 111, 44, 32, 100, 97, 116,
                  97, 32, 99, 117, 98, 101, 32, 97, 116, 32, 97]"

section \<open>Receiver: one return of the network layer at a time\<close>

lemma keep_trying_timeout:
  "transport_keep_trying_to_rx cfg s (NETWORK_RX_TIMEOUT # evs) =
     Some (TRANSPORT_KEEP_TRYING_TO_RX_TIMEOUT, [], s, [], evs)"
  by (simp add: transport_attempt_rx_def)


lemma keep_trying_error:
  "transport_keep_trying_to_rx cfg s (NETWORK_RX_ERROR # evs) =
     transport_keep_trying_to_rx cfg s evs"
  by (simp add: transport_attempt_rx_def option.map_id)

lemma keep_trying_outdated:
  "synchronize segment s \<noteq> segment ! 1 \<Longrightarrow>
   transport_keep_trying_to_rx cfg s (NETWORK_RX_SUCCESS segment # evs) =
     map_option (\<lambda>(r, segment', s', eff, rest). (r, segment', s', ack_effects cfg segment @ eff, rest))
       (transport_keep_trying_to_rx cfg s evs)"
  by (auto simp add: transport_attempt_rx_def Let_def ack_effects_def synchronize_def split: if_splits)

lemma keep_trying_new:
  "synchronize segment s = segment ! 1 \<Longrightarrow>
   transport_keep_trying_to_rx cfg s (NETWORK_RX_SUCCESS segment # evs) =
     Some (TRANSPORT_KEEP_TRYING_TO_RX_SUCCESS, segment, (if segment ! 1 = 0 then 1 else 0),
           ack_effects cfg segment, evs)"
  by (simp add: transport_attempt_rx_def Let_def ack_effects_def)

declare transport_keep_trying_to_rx.simps(2) [simp del]

lemma keep_trying_never_error:
  "transport_keep_trying_to_rx cfg s evs \<noteq> Some (TRANSPORT_KEEP_TRYING_TO_RX_ERROR, segment, s', eff, rest)"
proof (induction evs arbitrary: s eff)
  case Nil
  show ?case by simp
next
  case (Cons ev evs)
  show ?case
  proof (cases ev)
    case (NETWORK_RX_SUCCESS seg)
    show ?thesis
    proof (cases "synchronize seg s = seg ! 1")
      case True
      then show ?thesis unfolding NETWORK_RX_SUCCESS by (simp add: keep_trying_new)
    next
      case False
      then show ?thesis unfolding NETWORK_RX_SUCCESS using Cons.IH
        by (auto simp add: keep_trying_outdated)
    qed
  next
    case NETWORK_RX_TIMEOUT
    then show ?thesis by (simp add: keep_trying_timeout)
  next
    case NETWORK_RX_ERROR
    then show ?thesis using Cons.IH by (simp add: keep_trying_error)
  qed
qed

lemma rx_loop_timeout:
  "rx_loop cfg n a b st (NETWORK_RX_TIMEOUT # evs) = Some (TRANSPORT_RX_TIMEOUT, st, [], evs)"
  by (subst rx_loop.simps) (simp add: keep_trying_timeout)

lemma rx_loop_error:
  "rx_loop cfg n a b st (NETWORK_RX_ERROR # evs) = rx_loop cfg n a b st evs"
  by (subst rx_loop.simps, subst (2) rx_loop.simps) (simp add: keep_trying_error)

lemma rx_loop_never_error:
  "rx_loop cfg n a b st evs \<noteq> Some (TRANSPORT_RX_ERROR, st', eff, rest)"
proof (induction cfg n a b st evs arbitrary: st' eff rest rule: rx_loop.induct)
  case (1 cfg buf_len ml_ptr sp_ptr st evs)
  show ?case
  proof (cases "transport_keep_trying_to_rx cfg (static_rx_seq st) evs")
    case None
    then show ?thesis by (subst rx_loop.simps) simp
  next
    case (Some x)
    obtain r seg q e rs where x: "x = (r, seg, q, e, rs)" by (cases x) auto
    show ?thesis
    proof (cases r)
      case TRANSPORT_KEEP_TRYING_TO_RX_SUCCESS
      obtain d st2 where sw: "rx_switch buf_len ml_ptr sp_ptr (st\<lparr>static_rx_seq := q\<rparr>) seg = (d, st2)"
        by (cases "rx_switch buf_len ml_ptr sp_ptr (st\<lparr>static_rx_seq := q\<rparr>) seg") auto
      show ?thesis
      proof (cases d)
        case True
        with Some x sw TRANSPORT_KEEP_TRYING_TO_RX_SUCCESS show ?thesis
          by (subst rx_loop.simps) simp
      next
        case False
        have "rx_loop cfg buf_len ml_ptr sp_ptr st2 rs \<noteq> Some (TRANSPORT_RX_ERROR, st', eff', rest)" for eff'
          using "1.IH" [OF Some x [symmetric] refl refl refl _ _ sw [symmetric]]
            TRANSPORT_KEEP_TRYING_TO_RX_SUCCESS False by simp
        with Some x sw TRANSPORT_KEEP_TRYING_TO_RX_SUCCESS False show ?thesis
          by (subst rx_loop.simps) auto
      qed
    next
      case TRANSPORT_KEEP_TRYING_TO_RX_TIMEOUT
      with Some x show ?thesis by (subst rx_loop.simps) simp
    next
      case TRANSPORT_KEEP_TRYING_TO_RX_ERROR
      with Some x keep_trying_never_error show ?thesis by blast
    qed
  qed
qed


lemma rx_loop_outdated:
  assumes "synchronize segment (static_rx_seq st) \<noteq> segment ! 1"
  shows "rx_loop cfg n a b st (NETWORK_RX_SUCCESS segment # evs) =
     map_option (\<lambda>(r, st', eff, rest). (r, st', ack_effects cfg segment @ eff, rest))
       (rx_loop cfg n a b st evs)"
proof (cases "transport_keep_trying_to_rx cfg (static_rx_seq st) evs")
  case None
  with assms show ?thesis
    by (subst rx_loop.simps, subst (2) rx_loop.simps) (simp add: keep_trying_outdated)
next
  case (Some x)
  obtain r seg q e rs where x: "x = (r, seg, q, e, rs)" by (cases x) auto
  obtain d st2 where sw: "rx_switch n a b (st\<lparr>static_rx_seq := q\<rparr>) seg = (d, st2)"
    by (cases "rx_switch n a b (st\<lparr>static_rx_seq := q\<rparr>) seg") auto
  show ?thesis
  proof (cases "rx_loop cfg n a b st2 rs")
    case None
    with assms Some x sw show ?thesis
      by (subst rx_loop.simps, subst (2) rx_loop.simps)
         (cases d; simp add: keep_trying_outdated)
  next
    case (Some y)
    obtain r2 st3 e2 rs2 where y: "y = (r2, st3, e2, rs2)" by (cases y) auto
    from assms \<open>transport_keep_trying_to_rx cfg (static_rx_seq st) evs = Some x\<close> x sw Some y
    show ?thesis
      by (subst rx_loop.simps, subst (2) rx_loop.simps)
         (cases d; simp add: keep_trying_outdated)
  qed
qed

lemma rx_loop_new:
  assumes "synchronize segment (static_rx_seq st) = segment ! 1"
  shows "rx_loop cfg n a b st (NETWORK_RX_SUCCESS segment # evs) =
     (case rx_switch n a b (st\<lparr>static_rx_seq := (if segment ! 1 = 0 then 1 else 0)\<rparr>) segment of
        (True, st') \<Rightarrow> Some (TRANSPORT_RX_SUCCESS, st', ack_effects cfg segment, evs)
      | (False, st') \<Rightarrow>
          map_option (\<lambda>(r, st'', eff, rest). (r, st'', ack_effects cfg segment @ eff, rest))
            (rx_loop cfg n a b st' evs))"
  using assms by (subst rx_loop.simps) (simp add: keep_trying_new)

lemma rx_switch_static_rx_seq:
  "static_rx_seq (snd (rx_switch n a b st segment)) = static_rx_seq st"
  by (simp add: rx_switch_def Let_def split: rx_state_t.splits)

lemma rx_switch_data_continues:
  "segment ! 4 = SEGID_DATA \<Longrightarrow> fst (rx_switch n a b st segment) = False"
  by (simp add: rx_switch_def Let_def SEGID_DATA_def SEGID_START_OF_MESSAGE_def
      SEGID_END_OF_MESSAGE_def split: rx_state_t.splits)

lemma rx_loop_duplicates:
  assumes data: "d ! 4 = SEGID_DATA" and new: "d ! 1 = static_rx_seq st"
  shows "rx_loop cfg n a b st (NETWORK_RX_SUCCESS d # replicate k (NETWORK_RX_SUCCESS d) @ evs) =
     map_option
       (\<lambda>(r, st', eff, rest). (r, st', concat (replicate k (ack_effects cfg d)) @ eff, rest))
       (rx_loop cfg n a b st (NETWORK_RX_SUCCESS d # evs))"
proof -
  define t :: u8 where "t = (if d ! 1 = 0 then 1 else 0)"
  have nosom: "d ! 4 \<noteq> SEGID_START_OF_MESSAGE"
    using data by (simp add: SEGID_DATA_def SEGID_START_OF_MESSAGE_def)
  have sync: "synchronize d (static_rx_seq st) = d ! 1"
    using nosom new by (simp add: synchronize_def)
  obtain c st2 where sw: "rx_switch n a b (st\<lparr>static_rx_seq := t\<rparr>) d = (c, st2)"
    by (cases "rx_switch n a b (st\<lparr>static_rx_seq := t\<rparr>) d") auto
  have c: "c = False"
    using rx_switch_data_continues [OF data, of n a b "st\<lparr>static_rx_seq := t\<rparr>"] sw by simp
  have "static_rx_seq st2 = t"
    using rx_switch_static_rx_seq [of n a b "st\<lparr>static_rx_seq := t\<rparr>" d] sw by simp
  then have old: "synchronize d (static_rx_seq st2) \<noteq> d ! 1"
    using nosom by (simp add: synchronize_def t_def)
  have first: "rx_loop cfg n a b st (NETWORK_RX_SUCCESS d # evs') =
      map_option (\<lambda>(r, st'', eff, rest). (r, st'', ack_effects cfg d @ eff, rest))
        (rx_loop cfg n a b st2 evs')" for evs'
    unfolding rx_loop_new [OF sync] t_def [symmetric] sw c by simp
  have again: "rx_loop cfg n a b st2 (replicate k (NETWORK_RX_SUCCESS d) @ evs) =
      map_option
        (\<lambda>(r, st'', eff, rest). (r, st'', concat (replicate k (ack_effects cfg d)) @ eff, rest))
        (rx_loop cfg n a b st2 evs)"
  proof (induction k)
    case 0
    show ?case by (simp add: option.map_ident case_prod_unfold)
  next
    case (Suc k)
    show ?case
      by (simp add: rx_loop_outdated [OF old] Suc option.map_comp comp_def case_prod_unfold)
  qed
  have swap: "ack_effects cfg d @ concat (replicate k (ack_effects cfg d)) =
      concat (replicate k (ack_effects cfg d)) @ ack_effects cfg d"
    by (induction k) simp_all
  then have swap': "ack_effects cfg d @ concat (replicate k (ack_effects cfg d)) @ e =
      concat (replicate k (ack_effects cfg d)) @ ack_effects cfg d @ e" for e
    by (simp only: append_assoc [symmetric])
  show ?thesis
    unfolding first again
    by (simp add: option.map_comp comp_def case_prod_unfold swap')
qed

lemma copy_payload_in_bounds:
  "(i, v) \<in> set (copy_payload segment payload_len offset n k) \<Longrightarrow> i < n"
proof (induction segment payload_len offset n k rule: copy_payload.induct)
  case (1 segment payload_len offset buf_len k)
  then show ?case
    by (subst (asm) (2) copy_payload.simps) (auto split: if_splits)
qed

lemma rx_switch_stores:
  "\<exists>ws. rx_stores (snd (rx_switch n a b st segment)) = rx_stores st @ ws \<and>
        (\<forall>(i, v) \<in> set ws. i < n)"
  by (auto simp add: rx_switch_def Let_def copy_payload_in_bounds split: rx_state_t.splits)

lemma rx_loop_stores:
  "rx_loop cfg n a b st evs = Some (r, st', eff, rest) \<Longrightarrow>
     \<exists>ws. rx_stores st' = rx_stores st @ ws \<and> (\<forall>(i, v) \<in> set ws. i < n)"
proof (induction cfg n a b st evs arbitrary: r st' eff rest rule: rx_loop.induct)
  case (1 cfg buf_len ml_ptr sp_ptr st evs)
  from "1.prems" obtain x where Some: "transport_keep_trying_to_rx cfg (static_rx_seq st) evs = Some x"
    by (subst (asm) rx_loop.simps) (auto split: option.splits)
  obtain k seg q e rs where x: "x = (k, seg, q, e, rs)" by (cases x) auto
  obtain d st2 where sw: "rx_switch buf_len ml_ptr sp_ptr (st\<lparr>static_rx_seq := q\<rparr>) seg = (d, st2)"
    by (cases "rx_switch buf_len ml_ptr sp_ptr (st\<lparr>static_rx_seq := q\<rparr>) seg") auto
  from rx_switch_stores [of buf_len ml_ptr sp_ptr "st\<lparr>static_rx_seq := q\<rparr>" seg] sw
  obtain ws where ws: "rx_stores st2 = rx_stores st @ ws" "\<forall>(i, v) \<in> set ws. i < buf_len"
    by auto
  show ?case
  proof (cases k)
    case TRANSPORT_KEEP_TRYING_TO_RX_SUCCESS
    show ?thesis
    proof (cases d)
      case True
      with "1.prems" Some x sw TRANSPORT_KEEP_TRYING_TO_RX_SUCCESS have "st' = st2"
        by (subst (asm) rx_loop.simps) simp
      with ws show ?thesis by blast
    next
      case False
      with "1.prems" Some x sw TRANSPORT_KEEP_TRYING_TO_RX_SUCCESS obtain eff' where
        rec: "rx_loop cfg buf_len ml_ptr sp_ptr st2 rs = Some (r, st', eff', rest)"
        by (subst (asm) rx_loop.simps) auto
      from "1.IH" [OF Some x [symmetric] refl refl refl _ _ sw [symmetric] _ rec]
        TRANSPORT_KEEP_TRYING_TO_RX_SUCCESS False
      obtain ws' where "rx_stores st' = rx_stores st2 @ ws'" "\<forall>(i, v) \<in> set ws'. i < buf_len"
        by auto
      with ws have "rx_stores st' = rx_stores st @ (ws @ ws')" "\<forall>(i, v) \<in> set (ws @ ws'). i < buf_len"
        by auto
      then show ?thesis by blast
    qed
  next
    case TRANSPORT_KEEP_TRYING_TO_RX_TIMEOUT
    with "1.prems" Some x have "st' = st\<lparr>static_rx_seq := q\<rparr>"
      by (subst (asm) rx_loop.simps) simp
    then show ?thesis by simp
  next
    case TRANSPORT_KEEP_TRYING_TO_RX_ERROR
    with Some x keep_trying_never_error show ?thesis by blast
  qed
qed

section \<open>Receiver: acknowledgement and synchronisation\<close>

text \<open>
  C4. Every segment that \<open>transport_attempt_rx\<close> gets from \<open>network_rx\<close> is
  acknowledged, whatever \<open>rx_seq\<close> is and so whether or not the sequence-number
  check that follows calls it a duplicate: after the ACK delay the function hands
  \<open>network_tx\<close> a five-byte ACK segment whose sequence number is 1 if the segment
  carried 0 and 0 otherwise, whose destination port is the segment's source port
  \<open>segment[3]\<close> and whose source port is \<open>MY_PORT\<close>, addressed to the network
  address of that port.
\<close>

theorem transport_attempt_rx_acknowledges:
  "snd (snd (transport_attempt_rx cfg s (NETWORK_RX_SUCCESS segment))) =
     [DelayMs TRANSPORT_TX_ACK_DELAY_MS,
      NetworkTx [5, (if segment ! 1 = 0 then 1 else 0), segment ! 3, MY_PORT cfg, SEGID_ACK]
        ACK_SEGMENT_HEARDER_LEN (resolve_network_addr cfg (segment ! 3)) (MY_NETWORK_ADDR cfg)]"
  by (simp add: transport_attempt_rx_def ack_effects_def ack_seg_def Let_def
      ACK_SEGMENT_HEARDER_LEN_def)

text \<open>
  C8. A START_OF_MESSAGE segment sets \<open>rx_seq\<close> to its own sequence number, so the
  attempt succeeds and leaves \<open>rx_seq\<close> at the complement of that number, whatever
  \<open>rx_seq\<close> was before; a START_OF_MESSAGE with sequence number 0 leaves the receiver
  expecting 1.
\<close>

theorem transport_attempt_rx_start_synchronizes:
  assumes "segment ! 4 = SEGID_START_OF_MESSAGE"
  shows "synchronize segment s = segment ! 1 \<and>
         fst (transport_attempt_rx cfg s (NETWORK_RX_SUCCESS segment)) = TRANSPORT_ATTEMPT_RX_SUCCESS \<and>
         fst (snd (transport_attempt_rx cfg s (NETWORK_RX_SUCCESS segment))) =
           (if segment ! 1 = 0 then 1 else 0) \<and>
         transport_attempt_rx cfg s (NETWORK_RX_SUCCESS segment) =
           transport_attempt_rx cfg s' (NETWORK_RX_SUCCESS segment)"
  using assms by (simp add: transport_attempt_rx_def synchronize_def Let_def)

theorem transport_attempt_rx_start_synchronizes_witness:
  "transport_attempt_rx \<lparr>MY_PORT = 0x0A, MY_NETWORK_ADDR = 0x0A, resolve_network_addr = (\<lambda>p. p)\<rparr> 1
     (NETWORK_RX_SUCCESS [7, 0, 0x0A, 0x3C, 0x07, 0, 15]) =
   (TRANSPORT_ATTEMPT_RX_SUCCESS, 1,
    [DelayMs 250, NetworkTx [5, 1, 0x3C, 0x0A, 0x0A] 5 0x3C 0x0A])"
proof -
  let ?cfg = "\<lparr>MY_PORT = 0x0A, MY_NETWORK_ADDR = 0x0A, resolve_network_addr = (\<lambda>p. p)\<rparr>"
  let ?seg = "[7, 0, 0x0A, 0x3C, 0x07, 0, 15] :: u8 list"
  have som: "?seg ! 4 = SEGID_START_OF_MESSAGE"
    by (simp add: SEGID_START_OF_MESSAGE_def)
  have "fst (transport_attempt_rx ?cfg 1 (NETWORK_RX_SUCCESS ?seg)) = TRANSPORT_ATTEMPT_RX_SUCCESS"
    and "fst (snd (transport_attempt_rx ?cfg 1 (NETWORK_RX_SUCCESS ?seg))) = 1"
    using transport_attempt_rx_start_synchronizes [OF som, of 1 ?cfg] by simp_all
  moreover have "snd (snd (transport_attempt_rx ?cfg 1 (NETWORK_RX_SUCCESS ?seg))) =
      [DelayMs 250, NetworkTx [5, 1, 0x3C, 0x0A, 0x0A] 5 0x3C 0x0A]"
    by (simp add: transport_attempt_rx_def ack_effects_def ack_seg_def Let_def
        ACK_SEGMENT_HEARDER_LEN_def TRANSPORT_TX_ACK_DELAY_MS_def SEGID_ACK_def)
  ultimately show ?thesis
    by (cases "transport_attempt_rx ?cfg 1 (NETWORK_RX_SUCCESS ?seg)") simp
qed


section \<open>Receiver: duplicates, errors and the caller's buffer\<close>

lemmas rx_eval = rx_loop_new rx_loop_outdated rx_loop_timeout rx_loop_error synchronize_def
  rx_switch_def Let_def SEGID_DATA_def SEGID_START_OF_MESSAGE_def SEGID_END_OF_MESSAGE_def
  SEGID_ACK_def DATA_SEGMENT_HEADER_LEN_def ack_effects_def ack_seg_def offset_read_def
  copy_payload.simps byte_at_def apply_stores_def zero_stores_def ACK_SEGMENT_HEARDER_LEN_def
  TRANSPORT_TX_ACK_DELAY_MS_def message_len_read_def

text \<open>
  C3. At the sequence-number check the expected number is \<open>rx_seq\<close> as the
  START_OF_MESSAGE rule has just left it (\<open>synchronize\<close>: for a START_OF_MESSAGE the
  segment's own number, otherwise the stored one). A segment whose number differs from
  it makes \<open>transport_attempt_rx\<close> return Outdated with \<open>rx_seq\<close> unchanged, and
  the keep-trying wrapper goes on to the next segment without handing this one over; a
  segment whose number matches makes the attempt succeed and leaves \<open>rx_seq\<close> at 1
  if the number was 0 and at 0 otherwise. Hence a DATA segment that is new when it
  arrives and arrives again \<open>k\<close> times right after is only acknowledged again: the
  run with the duplicates ends in the same result and the same receiver state, with the
  same stores into the buffer, as the run without them; \<open>k\<close> more acknowledgements
  are sent.
\<close>

theorem duplicate_segment_is_discarded:
  "(synchronize segment s \<noteq> segment ! 1 \<longrightarrow>
      fst (transport_attempt_rx cfg s (NETWORK_RX_SUCCESS segment)) = TRANSPORT_ATTEMPT_RX_OUTDATED \<and>
      fst (snd (transport_attempt_rx cfg s (NETWORK_RX_SUCCESS segment))) = s \<and>
      transport_keep_trying_to_rx cfg s (NETWORK_RX_SUCCESS segment # evs) =
        map_option (\<lambda>(r, segment', s', eff, rest). (r, segment', s', ack_effects cfg segment @ eff, rest))
          (transport_keep_trying_to_rx cfg s evs)) \<and>
   (synchronize segment s = segment ! 1 \<longrightarrow>
      fst (transport_attempt_rx cfg s (NETWORK_RX_SUCCESS segment)) = TRANSPORT_ATTEMPT_RX_SUCCESS \<and>
      fst (snd (transport_attempt_rx cfg s (NETWORK_RX_SUCCESS segment))) =
        (if segment ! 1 = 0 then 1 else 0)) \<and>
   (d ! 4 = SEGID_DATA \<and> d ! 1 = static_rx_seq st \<longrightarrow>
      rx_loop cfg n a b st (NETWORK_RX_SUCCESS d # replicate k (NETWORK_RX_SUCCESS d) @ evs) =
        map_option
          (\<lambda>(r, st', eff, rest). (r, st', concat (replicate k (ack_effects cfg d)) @ eff, rest))
          (rx_loop cfg n a b st (NETWORK_RX_SUCCESS d # evs)))"
proof (intro conjI impI)
  assume old: "synchronize segment s \<noteq> segment ! 1"
  then show "fst (transport_attempt_rx cfg s (NETWORK_RX_SUCCESS segment)) = TRANSPORT_ATTEMPT_RX_OUTDATED"
    by (simp add: transport_attempt_rx_def Let_def)
  from old show "fst (snd (transport_attempt_rx cfg s (NETWORK_RX_SUCCESS segment))) = s"
    by (auto simp add: transport_attempt_rx_def Let_def synchronize_def split: if_splits)
  from old show "transport_keep_trying_to_rx cfg s (NETWORK_RX_SUCCESS segment # evs) =
        map_option (\<lambda>(r, segment', s', eff, rest). (r, segment', s', ack_effects cfg segment @ eff, rest))
          (transport_keep_trying_to_rx cfg s evs)"
    by (rule keep_trying_outdated)
next
  assume new: "synchronize segment s = segment ! 1"
  then show "fst (transport_attempt_rx cfg s (NETWORK_RX_SUCCESS segment)) = TRANSPORT_ATTEMPT_RX_SUCCESS"
    by (simp add: transport_attempt_rx_def Let_def)
  from new show "fst (snd (transport_attempt_rx cfg s (NETWORK_RX_SUCCESS segment))) =
        (if segment ! 1 = 0 then 1 else 0)"
    by (simp add: transport_attempt_rx_def Let_def)
next
  assume "d ! 4 = SEGID_DATA \<and> d ! 1 = static_rx_seq st"
  then show "rx_loop cfg n a b st (NETWORK_RX_SUCCESS d # replicate k (NETWORK_RX_SUCCESS d) @ evs) =
        map_option
          (\<lambda>(r, st', eff, rest). (r, st', concat (replicate k (ack_effects cfg d)) @ eff, rest))
          (rx_loop cfg n a b st (NETWORK_RX_SUCCESS d # evs))"
    by (simp add: rx_loop_duplicates)
qed

theorem duplicate_segment_is_discarded_witness:
  "transport_attempt_rx cube_config 0 (NETWORK_RX_SUCCESS data_abc) =
     (TRANSPORT_ATTEMPT_RX_OUTDATED, 0, [DelayMs 250, NetworkTx [5, 0, 0x3C, 0x0A, 0x0A] 5 0x3C 0x0A]) \<and>
   transport_attempt_rx cube_config 1 (NETWORK_RX_SUCCESS data_abc) =
     (TRANSPORT_ATTEMPT_RX_SUCCESS, 0, [DelayMs 250, NetworkTx [5, 0, 0x3C, 0x0A, 0x0A] 5 0x3C 0x0A]) \<and>
   rx_loop cube_config 4 True True receiving [NETWORK_RX_SUCCESS data_abc, NETWORK_RX_SUCCESS data_abc, NETWORK_RX_SUCCESS end_of_message] =
     Some (TRANSPORT_RX_SUCCESS,
           \<lparr>static_rx_seq = 1, rx_state = RXST_Idle,
            rx_buffer = [Some 0x61, Some 0x62, Some 0x63, Some 0],
            rx_message_len = Some 3, rx_source_port = Some 0x3C,
            rx_stores = [(0, Some 0), (1, Some 0), (2, Some 0), (3, Some 0),
                         (0, Some 0x61), (1, Some 0x62), (2, Some 0x63)]\<rparr>,
           [DelayMs 250, NetworkTx [5, 0, 0x3C, 0x0A, 0x0A] 5 0x3C 0x0A,
            DelayMs 250, NetworkTx [5, 0, 0x3C, 0x0A, 0x0A] 5 0x3C 0x0A,
            DelayMs 250, NetworkTx [5, 1, 0x3C, 0x0A, 0x0A] 5 0x3C 0x0A],
           [])"
proof -
  have old: "synchronize data_abc 0 \<noteq> data_abc ! 1"
    by (simp add: synchronize_def data_abc_def SEGID_START_OF_MESSAGE_def)
  have new: "synchronize data_abc 1 = data_abc ! 1"
    by (simp add: synchronize_def data_abc_def SEGID_START_OF_MESSAGE_def)
  have dup: "data_abc ! 4 = SEGID_DATA \<and> data_abc ! 1 = static_rx_seq receiving"
    by (simp add: data_abc_def receiving_def SEGID_DATA_def)
  have acks: "snd (snd (transport_attempt_rx cube_config s (NETWORK_RX_SUCCESS data_abc))) =
      [DelayMs 250, NetworkTx [5, 0, 0x3C, 0x0A, 0x0A] 5 0x3C 0x0A]" for s
    by (simp add: transport_attempt_rx_def Let_def ack_effects_def ack_seg_def data_abc_def cube_config_def
        ACK_SEGMENT_HEARDER_LEN_def TRANSPORT_TX_ACK_DELAY_MS_def SEGID_ACK_def)
  have once: "rx_loop cube_config 4 True True receiving [NETWORK_RX_SUCCESS data_abc, NETWORK_RX_SUCCESS end_of_message] =
     Some (TRANSPORT_RX_SUCCESS,
           \<lparr>static_rx_seq = 1, rx_state = RXST_Idle,
            rx_buffer = [Some 0x61, Some 0x62, Some 0x63, Some 0],
            rx_message_len = Some 3, rx_source_port = Some 0x3C,
            rx_stores = [(0, Some 0), (1, Some 0), (2, Some 0), (3, Some 0),
                         (0, Some 0x61), (1, Some 0x62), (2, Some 0x63)]\<rparr>,
           [DelayMs 250, NetworkTx [5, 0, 0x3C, 0x0A, 0x0A] 5 0x3C 0x0A,
            DelayMs 250, NetworkTx [5, 1, 0x3C, 0x0A, 0x0A] 5 0x3C 0x0A],
           [])"
    by (simp add: rx_eval cube_config_def receiving_def data_abc_def end_of_message_def)
  have ack0: "ack_effects cube_config data_abc = [DelayMs 250, NetworkTx [5, 0, 0x3C, 0x0A, 0x0A] 5 0x3C 0x0A]"
    by (simp add: ack_effects_def ack_seg_def data_abc_def cube_config_def
        ACK_SEGMENT_HEARDER_LEN_def TRANSPORT_TX_ACK_DELAY_MS_def SEGID_ACK_def)
  note c3 = duplicate_segment_is_discarded
  have "transport_attempt_rx cube_config 0 (NETWORK_RX_SUCCESS data_abc) =
     (TRANSPORT_ATTEMPT_RX_OUTDATED, 0, [DelayMs 250, NetworkTx [5, 0, 0x3C, 0x0A, 0x0A] 5 0x3C 0x0A])"
    using c3 [where segment = data_abc and s = 0 and cfg = cube_config] old acks [of 0]
    by (cases "transport_attempt_rx cube_config 0 (NETWORK_RX_SUCCESS data_abc)") simp
  moreover have "transport_attempt_rx cube_config 1 (NETWORK_RX_SUCCESS data_abc) =
     (TRANSPORT_ATTEMPT_RX_SUCCESS, 0, [DelayMs 250, NetworkTx [5, 0, 0x3C, 0x0A, 0x0A] 5 0x3C 0x0A])"
    using c3 [where segment = data_abc and s = 1 and cfg = cube_config] new acks [of 1]
    by (cases "transport_attempt_rx cube_config 1 (NETWORK_RX_SUCCESS data_abc)") (simp add: data_abc_def)
  moreover have "rx_loop cube_config 4 True True receiving
      [NETWORK_RX_SUCCESS data_abc, NETWORK_RX_SUCCESS data_abc, NETWORK_RX_SUCCESS end_of_message] =
     Some (TRANSPORT_RX_SUCCESS,
           \<lparr>static_rx_seq = 1, rx_state = RXST_Idle,
            rx_buffer = [Some 0x61, Some 0x62, Some 0x63, Some 0],
            rx_message_len = Some 3, rx_source_port = Some 0x3C,
            rx_stores = [(0, Some 0), (1, Some 0), (2, Some 0), (3, Some 0),
                         (0, Some 0x61), (1, Some 0x62), (2, Some 0x63)]\<rparr>,
           [DelayMs 250, NetworkTx [5, 0, 0x3C, 0x0A, 0x0A] 5 0x3C 0x0A,
            DelayMs 250, NetworkTx [5, 0, 0x3C, 0x0A, 0x0A] 5 0x3C 0x0A,
            DelayMs 250, NetworkTx [5, 1, 0x3C, 0x0A, 0x0A] 5 0x3C 0x0A],
           [])"
    using c3 [where d = data_abc and st = receiving and cfg = cube_config and n = 4 and a = True
        and b = True and k = 1 and evs = "[NETWORK_RX_SUCCESS end_of_message]"] dup
    by (simp add: once ack0)
  ultimately show ?thesis by simp
qed

text \<open>
  C7, as amended. The keep-trying wrapper goes round again after Outdated and after
  every Error of the network layer, so \<open>transport_rx\<close> never returns
  \<open>TRANSPORT_RX_ERROR\<close>; a receive timeout makes \<open>transport_rx\<close> return
  \<open>TRANSPORT_RX_TIMEOUT\<close>, in any state of the loop and after any number of errors.
\<close>

theorem transport_rx_surfaces_timeout_only:
  "transport_keep_trying_to_rx cfg s (NETWORK_RX_ERROR # evs) =
     transport_keep_trying_to_rx cfg s evs \<and>
   (synchronize segment s \<noteq> segment ! 1 \<longrightarrow>
      transport_keep_trying_to_rx cfg s (NETWORK_RX_SUCCESS segment # evs) =
        map_option (\<lambda>(r, segment', s', eff, rest). (r, segment', s', ack_effects cfg segment @ eff, rest))
          (transport_keep_trying_to_rx cfg s evs)) \<and>
   rx_loop cfg k a b st (NETWORK_RX_TIMEOUT # evs) = Some (TRANSPORT_RX_TIMEOUT, st, [], evs) \<and>
   (\<exists>st1. transport_rx cfg s buffer buf_len a b (replicate n NETWORK_RX_ERROR @ NETWORK_RX_TIMEOUT # evs) =
      Some (TRANSPORT_RX_TIMEOUT, st1, [], evs)) \<and>
   transport_rx cfg s buffer buf_len a b evs \<noteq> Some (TRANSPORT_RX_ERROR, st', eff, rest)"
proof (intro conjI impI)
  show "transport_keep_trying_to_rx cfg s (NETWORK_RX_ERROR # evs) =
     transport_keep_trying_to_rx cfg s evs"
    by (rule keep_trying_error)
  show "rx_loop cfg k a b st (NETWORK_RX_TIMEOUT # evs) = Some (TRANSPORT_RX_TIMEOUT, st, [], evs)"
    by (rule rx_loop_timeout)
  have "rx_loop cfg k a b st (replicate n NETWORK_RX_ERROR @ NETWORK_RX_TIMEOUT # evs) =
      Some (TRANSPORT_RX_TIMEOUT, st, [], evs)" for k st
    by (induction n) (simp_all add: rx_loop_timeout rx_loop_error)
  then show "\<exists>st1. transport_rx cfg s buffer buf_len a b
      (replicate n NETWORK_RX_ERROR @ NETWORK_RX_TIMEOUT # evs) = Some (TRANSPORT_RX_TIMEOUT, st1, [], evs)"
    by (simp add: transport_rx_def)
  show "transport_rx cfg s buffer buf_len a b evs \<noteq> Some (TRANSPORT_RX_ERROR, st', eff, rest)"
    by (simp add: transport_rx_def rx_loop_never_error)
next
  assume "synchronize segment s \<noteq> segment ! 1"
  then show "transport_keep_trying_to_rx cfg s (NETWORK_RX_SUCCESS segment # evs) =
        map_option (\<lambda>(r, segment', s', eff, rest). (r, segment', s', ack_effects cfg segment @ eff, rest))
          (transport_keep_trying_to_rx cfg s evs)"
    by (rule keep_trying_outdated)
qed

theorem transport_rx_surfaces_timeout_only_witness:
  "transport_keep_trying_to_rx cube_config 0
     [NETWORK_RX_ERROR, NETWORK_RX_SUCCESS data_abc, NETWORK_RX_TIMEOUT] =
   Some (TRANSPORT_KEEP_TRYING_TO_RX_TIMEOUT, [], 0,
         [DelayMs 250, NetworkTx [5, 0, 0x3C, 0x0A, 0x0A] 5 0x3C 0x0A], [])"
proof -
  have old: "synchronize data_abc 0 \<noteq> data_abc ! 1"
    by (simp add: synchronize_def data_abc_def SEGID_START_OF_MESSAGE_def)
  have ack0: "ack_effects cube_config data_abc = [DelayMs 250, NetworkTx [5, 0, 0x3C, 0x0A, 0x0A] 5 0x3C 0x0A]"
    by (simp add: ack_effects_def ack_seg_def data_abc_def cube_config_def
        ACK_SEGMENT_HEARDER_LEN_def TRANSPORT_TX_ACK_DELAY_MS_def SEGID_ACK_def)
  note c7 = transport_rx_surfaces_timeout_only
  have "transport_keep_trying_to_rx cube_config 0
      [NETWORK_RX_ERROR, NETWORK_RX_SUCCESS data_abc, NETWORK_RX_TIMEOUT] =
    transport_keep_trying_to_rx cube_config 0 [NETWORK_RX_SUCCESS data_abc, NETWORK_RX_TIMEOUT]"
    using c7 [where cfg = cube_config and s = 0] by blast
  also have "\<dots> = map_option (\<lambda>(r, segment', s', eff, rest). (r, segment', s', ack_effects cube_config data_abc @ eff, rest))
      (transport_keep_trying_to_rx cube_config 0 [NETWORK_RX_TIMEOUT])"
    using c7 [where cfg = cube_config and s = 0 and segment = data_abc and evs = "[NETWORK_RX_TIMEOUT]"] old
    by blast
  also have "\<dots> = Some (TRANSPORT_KEEP_TRYING_TO_RX_TIMEOUT, [], 0,
         [DelayMs 250, NetworkTx [5, 0, 0x3C, 0x0A, 0x0A] 5 0x3C 0x0A], [])"
    by (simp add: keep_trying_timeout ack0)
  finally show ?thesis .
qed

text \<open>
  C7 as stated fails: after an error of the network layer \<open>transport_rx\<close> keeps
  waiting, and returns Timeout, not Error, when the next receive times out.
\<close>

theorem transport_rx_error_counterexample:
  "transport_rx cube_config 0 [] 0 True True [NETWORK_RX_ERROR] = None \<and>
   transport_rx cube_config 0 [] 0 True True [NETWORK_RX_ERROR, NETWORK_RX_TIMEOUT] =
     Some (TRANSPORT_RX_TIMEOUT,
           \<lparr>static_rx_seq = 0, rx_state = RXST_Idle, rx_buffer = [], rx_message_len = None,
            rx_source_port = None, rx_stores = []\<rparr>, [], [])"
  by (simp add: transport_rx_def rx_loop_error rx_loop_timeout rx_loop.simps [of _ _ _ _ _ "[]"]
      apply_stores_def zero_stores_def)

text \<open>
  C9. The zeroing loop stores at the indices \<open>0, \<dots>, buf_len - 1\<close>, in this order;
  every store of the copy loop has an index below \<open>buf_len\<close>, whatever the segment,
  its payload length and its offset; and when \<open>transport_rx\<close> returns, the stores
  it has made into the caller's buffer are the zeroing stores followed by stores at
  indices below \<open>buf_len\<close>.
\<close>

theorem transport_rx_stores_in_bounds:
  "map fst (zero_stores n) = [0..<n] \<and>
   (\<forall>(i, v) \<in> set (copy_payload segment payload_len offset n k). i < n) \<and>
   (transport_rx cfg s buffer buf_len a b evs = Some (r, st', eff, rest) \<longrightarrow>
      (\<exists>ws. rx_stores st' = zero_stores (unat buf_len) @ ws) \<and>
      (\<forall>(i, v) \<in> set (rx_stores st'). i < unat buf_len))"
proof (intro conjI impI)
  show "map fst (zero_stores n) = [0..<n]"
    by (simp add: zero_stores_def comp_def)
  show "\<forall>(i, v) \<in> set (copy_payload segment payload_len offset n k). i < n"
    using copy_payload_in_bounds by blast
next
  assume "transport_rx cfg s buffer buf_len a b evs = Some (r, st', eff, rest)"
  from rx_loop_stores [OF this [unfolded transport_rx_def]]
  obtain ws where ws: "rx_stores st' = zero_stores (unat buf_len) @ ws"
      "\<forall>(i, v) \<in> set ws. i < unat buf_len"
    by auto
  from ws show "\<exists>ws. rx_stores st' = zero_stores (unat buf_len) @ ws" by blast
  from ws show "\<forall>(i, v) \<in> set (rx_stores st'). i < unat buf_len"
    by (auto simp add: zero_stores_def)
qed

theorem transport_rx_stores_in_bounds_witness:
  "transport_rx cube_config 1 [None, None, None, None] 4 True True
     [NETWORK_RX_SUCCESS start_of_one_byte, NETWORK_RX_SUCCESS data_abc_at_2, NETWORK_RX_SUCCESS end_of_message] =
   Some (TRANSPORT_RX_SUCCESS,
         \<lparr>static_rx_seq = 1, rx_state = RXST_Idle,
          rx_buffer = [Some 0, Some 0, Some 0x61, Some 0x62],
          rx_message_len = Some 0, rx_source_port = Some 0x3C,
          rx_stores = [(0, Some 0), (1, Some 0), (2, Some 0), (3, Some 0),
                       (2, Some 0x61), (3, Some 0x62)]\<rparr>,
         [DelayMs 250, NetworkTx [5, 1, 0x3C, 0x0A, 0x0A] 5 0x3C 0x0A,
          DelayMs 250, NetworkTx [5, 0, 0x3C, 0x0A, 0x0A] 5 0x3C 0x0A,
          DelayMs 250, NetworkTx [5, 1, 0x3C, 0x0A, 0x0A] 5 0x3C 0x0A],
         []) \<and>
   list_all (\<lambda>w. fst w < 4)
     [(0 :: nat, Some 0), (1, Some 0), (2, Some 0), (3, Some 0), (2, Some (0x61 :: u8)), (3, Some 0x62)]"
proof -
  have four: "[0..<4] = [0, 1, 2, 3]"
    by (simp add: upt_rec)
  have run: "transport_rx cube_config 1 [None, None, None, None] 4 True True
     [NETWORK_RX_SUCCESS start_of_one_byte, NETWORK_RX_SUCCESS data_abc_at_2, NETWORK_RX_SUCCESS end_of_message] =
   Some (TRANSPORT_RX_SUCCESS,
         \<lparr>static_rx_seq = 1, rx_state = RXST_Idle,
          rx_buffer = [Some 0, Some 0, Some 0x61, Some 0x62],
          rx_message_len = Some 0, rx_source_port = Some 0x3C,
          rx_stores = [(0, Some 0), (1, Some 0), (2, Some 0), (3, Some 0),
                       (2, Some 0x61), (3, Some 0x62)]\<rparr>,
         [DelayMs 250, NetworkTx [5, 1, 0x3C, 0x0A, 0x0A] 5 0x3C 0x0A,
          DelayMs 250, NetworkTx [5, 0, 0x3C, 0x0A, 0x0A] 5 0x3C 0x0A,
          DelayMs 250, NetworkTx [5, 1, 0x3C, 0x0A, 0x0A] 5 0x3C 0x0A],
         [])"
    by (simp add: transport_rx_def rx_eval four cube_config_def start_of_one_byte_def data_abc_at_2_def end_of_message_def)
  from transport_rx_stores_in_bounds [where n = 4 and buf_len = 4, THEN conjunct2, THEN conjunct2, rule_format, OF run]
  have "\<forall>(i, v) \<in> set [(0, Some 0), (1, Some 0), (2, Some 0), (3, Some 0),
      (2, Some (0x61 :: u8)), (3 :: nat, Some 0x62)]. i < 4"
    by simp
  then have "list_all (\<lambda>w. fst w < 4)
     [(0 :: nat, Some 0), (1, Some 0), (2, Some 0), (3, Some 0), (2, Some (0x61 :: u8)), (3, Some 0x62)]"
    by simp
  with run show ?thesis by simp
qed

text \<open>
  C2 at the START_OF_MESSAGE segment of a one-byte message (length bytes 0x00, 0x01):
  the source port is recorded as \<open>segment[3]\<close>, but the length the code stores is
  \<open>segment[5] << (8 + segment[6]) = 0 << 9 = 0\<close>, in Idle and in Receiving, where
  the big-endian value of the two bytes, as the DATA branch reads them, is 1.
\<close>

theorem message_len_read_shifts_by_low_byte:
  "message_len_read start_of_one_byte = 0 \<and> offset_read start_of_one_byte = 1 \<and>
   rx_switch 4 True True
     \<lparr>static_rx_seq = 1, rx_state = RXST_Idle, rx_buffer = [], rx_message_len = None,
      rx_source_port = None, rx_stores = []\<rparr> start_of_one_byte =
   (False, \<lparr>static_rx_seq = 1, rx_state = RXST_Receiving, rx_buffer = [], rx_message_len = Some 0,
      rx_source_port = Some 0x3C, rx_stores = []\<rparr>) \<and>
   rx_switch 4 True True
     \<lparr>static_rx_seq = 1, rx_state = RXST_Receiving, rx_buffer = [], rx_message_len = None,
      rx_source_port = None, rx_stores = []\<rparr> start_of_one_byte =
   (False, \<lparr>static_rx_seq = 1, rx_state = RXST_Receiving, rx_buffer = [], rx_message_len = Some 0,
      rx_source_port = None, rx_stores = []\<rparr>)"
  by (simp add: message_len_read_def offset_read_def rx_switch_def start_of_one_byte_def Let_def
      SEGID_START_OF_MESSAGE_def SEGID_DATA_def SEGID_END_OF_MESSAGE_def)


section \<open>Transmitter: attempts and segmentation\<close>






lemma transport_attempt_tx_sends:
  "snd (transport_attempt_tx cfg segment segment_len dest_port cur ev) =
     attempt_effects cfg segment segment_len dest_port"
  by (simp add: transport_attempt_tx_def attempt_effects_def Let_def split: network_rx_result.splits)

lemma keep_trying_to_tx_loop_limit:
  "keep_trying_to_tx_loop cfg segment segment_len dest_port cur 10 evs =
     Some (TRANSPORT_KEEP_TRYING_TO_TX_REACHED_ATTEMPT_LIMIT, [], evs)"
  by (cases evs) (simp_all add: TRANSPORT_TX_ATTEMPT_LIMIT_def)

lemma keep_trying_to_tx_loop_retry:
  assumes "a < 10"
    and "tried_again (fst (transport_attempt_tx cfg segment segment_len dest_port cur ev))"
  shows "keep_trying_to_tx_loop cfg segment segment_len dest_port cur a (ev # evs) =
     map_option (\<lambda>(r, eff, rest). (r, retry_effects cfg segment segment_len dest_port @ eff, rest))
       (keep_trying_to_tx_loop cfg segment segment_len dest_port cur (Suc a) evs)"
proof -
  obtain r e where att: "transport_attempt_tx cfg segment segment_len dest_port cur ev = (r, e)"
    by (cases "transport_attempt_tx cfg segment segment_len dest_port cur ev") auto
  have e: "e = attempt_effects cfg segment segment_len dest_port"
    using transport_attempt_tx_sends [of cfg segment segment_len dest_port cur ev] att by simp
  from assms att show ?thesis
    by (cases r) (simp_all add: tried_again_def TRANSPORT_TX_ATTEMPT_LIMIT_def e
        attempt_effects_def retry_effects_def)
qed

lemma keep_trying_to_tx_loop_success:
  assumes "a < 10"
    and "fst (transport_attempt_tx cfg segment segment_len dest_port cur ev) = TRANSPORT_ATTEMPT_TX_SUCCESS"
  shows "keep_trying_to_tx_loop cfg segment segment_len dest_port cur a (ev # evs) =
     Some (TRANSPORT_KEEP_TRYING_TO_TX_SUCCESS, attempt_effects cfg segment segment_len dest_port, evs)"
proof -
  obtain r e where att: "transport_attempt_tx cfg segment segment_len dest_port cur ev = (r, e)"
    by (cases "transport_attempt_tx cfg segment segment_len dest_port cur ev") auto
  have e: "e = attempt_effects cfg segment segment_len dest_port"
    using transport_attempt_tx_sends [of cfg segment segment_len dest_port cur ev] att by simp
  from assms att show ?thesis
    by (simp add: TRANSPORT_TX_ATTEMPT_LIMIT_def e)
qed

declare keep_trying_to_tx_loop.simps [simp del]

lemma keep_trying_to_tx_loop_retries:
  assumes "\<forall>ev \<in> set pre. tried_again (fst (transport_attempt_tx cfg segment segment_len dest_port cur ev))"
    and "a + length pre \<le> 10"
  shows "keep_trying_to_tx_loop cfg segment segment_len dest_port cur a (pre @ evs) =
     map_option
       (\<lambda>(r, eff, rest).
          (r, concat (replicate (length pre) (retry_effects cfg segment segment_len dest_port)) @ eff, rest))
       (keep_trying_to_tx_loop cfg segment segment_len dest_port cur (a + length pre) evs)"
  using assms
proof (induction pre arbitrary: a)
  case Nil
  then show ?case by (simp add: option.map_ident case_prod_unfold)
next
  case (Cons ev pre)
  from Cons.prems have a: "a < 10" and again: "tried_again (fst (transport_attempt_tx cfg segment segment_len dest_port cur ev))"
    and rest: "\<forall>ev \<in> set pre. tried_again (fst (transport_attempt_tx cfg segment segment_len dest_port cur ev))"
    and le: "Suc a + length pre \<le> 10"
    by auto
  show ?case
    by (simp add: keep_trying_to_tx_loop_retry [OF a again] Cons.IH [OF rest le]
        option.map_comp comp_def case_prod_unfold)
qed

lemma keep_trying_to_tx_loop_attempts:
  "keep_trying_to_tx_loop cfg segment segment_len dest_port cur a evs = Some (r, eff, rest) \<Longrightarrow>
   a \<le> 10 \<Longrightarrow>
     \<exists>n. tx_payloads eff = replicate n segment \<and> a + n \<le> 10 \<and>
         (r = TRANSPORT_KEEP_TRYING_TO_TX_SUCCESS \<longrightarrow> 0 < n)"
proof (induction evs arbitrary: a eff)
  case Nil
  then show ?case
    by (auto simp add: keep_trying_to_tx_loop.simps TRANSPORT_TX_ATTEMPT_LIMIT_def split: if_splits)
next
  case (Cons ev evs)
  show ?case
  proof (cases "a < 10")
    case False
    with Cons.prems show ?thesis
      by (auto simp add: keep_trying_to_tx_loop.simps TRANSPORT_TX_ATTEMPT_LIMIT_def split: if_splits)
  next
    case True
    obtain k e where att: "transport_attempt_tx cfg segment segment_len dest_port cur ev = (k, e)"
      by (cases "transport_attempt_tx cfg segment segment_len dest_port cur ev") auto
    have e: "e = attempt_effects cfg segment segment_len dest_port"
      using transport_attempt_tx_sends [of cfg segment segment_len dest_port cur ev] att by simp
    show ?thesis
    proof (cases "tried_again k")
      case again: True
      with att have "tried_again (fst (transport_attempt_tx cfg segment segment_len dest_port cur ev))"
        by simp
      from Cons.prems [unfolded keep_trying_to_tx_loop_retry [OF True this]]
      obtain eff' where rec: "keep_trying_to_tx_loop cfg segment segment_len dest_port cur (Suc a) evs =
          Some (r, eff', rest)" and eff: "eff = retry_effects cfg segment segment_len dest_port @ eff'"
        by auto
      from Cons.IH [OF rec] True obtain n where "tx_payloads eff' = replicate n segment" "Suc a + n \<le> 10"
        by auto
      then have "tx_payloads eff = replicate (Suc n) segment" "a + Suc n \<le> 10"
        by (simp_all add: eff retry_effects_def)
      then show ?thesis by blast
    next
      case False
      with Cons.prems att True have "eff = e"
        by (cases k) (auto simp add: keep_trying_to_tx_loop.simps tried_again_def
            TRANSPORT_TX_ATTEMPT_LIMIT_def)
      then have "tx_payloads eff = replicate 1 segment" "a + 1 \<le> 10"
        using True by (simp_all add: e attempt_effects_def)
      then show ?thesis by (metis zero_less_one)
    qed
  qed
qed

text \<open>
  C5. \<open>transport_keep_trying_to_tx\<close> hands the segment to the network layer at most
  \<open>TRANSPORT_TX_ATTEMPT_LIMIT = 10\<close> times. When the first attempts are classified
  NotAcknowledged, NotAnAck or OldAck, each is followed by the retry delay and another
  attempt: if fewer than 10 of them are followed by an ACK whose sequence number is the
  complement of \<open>current_seq_num\<close>, the wrapper returns Success at once, and if 10 of
  them have been made it returns ReachedAttemptLimit. So \<open>transport_tx\<close>, when the
  receive after each of the first ten transmissions times out, returns
  \<open>TRANSPORT_TX_REACHED_ATTEMPT_LIMIT\<close> after ten transmissions of START_OF_MESSAGE.
\<close>

theorem transport_keep_trying_to_tx_attempt_limit:
  "(transport_keep_trying_to_tx cfg segment segment_len dest_port cur evs = Some (r, eff, rest) \<longrightarrow>
      length (tx_payloads eff) \<le> TRANSPORT_TX_ATTEMPT_LIMIT) \<and>
   ((\<forall>ev \<in> set pre.
        fst (transport_attempt_tx cfg segment segment_len dest_port cur ev) \<in>
          {TRANSPORT_ATTEMPT_TX_NOT_ACKNOWLEDGED, TRANSPORT_ATTEMPT_TX_NOT_AN_ACK,
           TRANSPORT_ATTEMPT_TX_OLD_ACK}) \<longrightarrow>
      (length pre < TRANSPORT_TX_ATTEMPT_LIMIT \<and> hopefully_an_ack ! 4 = SEGID_ACK \<and>
       hopefully_an_ack ! 1 = (if cur = 0 then 1 else 0) \<longrightarrow>
         transport_keep_trying_to_tx cfg segment segment_len dest_port cur
           (pre @ NETWORK_RX_SUCCESS hopefully_an_ack # evs) =
         Some (TRANSPORT_KEEP_TRYING_TO_TX_SUCCESS,
               concat (replicate (length pre) (retry_effects cfg segment segment_len dest_port)) @
                 attempt_effects cfg segment segment_len dest_port,
               evs)) \<and>
      (length pre = TRANSPORT_TX_ATTEMPT_LIMIT \<longrightarrow>
         transport_keep_trying_to_tx cfg segment segment_len dest_port cur (pre @ evs) =
         Some (TRANSPORT_KEEP_TRYING_TO_TX_REACHED_ATTEMPT_LIMIT,
               concat (replicate TRANSPORT_TX_ATTEMPT_LIMIT
                         (retry_effects cfg segment segment_len dest_port)),
               evs))) \<and>
   transport_tx cfg message message_len dest_port
       (replicate TRANSPORT_TX_ATTEMPT_LIMIT NETWORK_RX_TIMEOUT @ evs) =
     Some (TRANSPORT_TX_REACHED_ATTEMPT_LIMIT,
           concat (replicate TRANSPORT_TX_ATTEMPT_LIMIT
                     (retry_effects cfg (start_segment cfg (unat message_len) dest_port 0)
                        START_SEGMENT_HEADER_LEN dest_port)),
           evs)"
proof (intro conjI impI)
  assume "transport_keep_trying_to_tx cfg segment segment_len dest_port cur evs = Some (r, eff, rest)"
  from keep_trying_to_tx_loop_attempts [OF this [unfolded transport_keep_trying_to_tx_def]]
  show "length (tx_payloads eff) \<le> TRANSPORT_TX_ATTEMPT_LIMIT"
    by (auto simp add: TRANSPORT_TX_ATTEMPT_LIMIT_def)
next
  assume pre: "\<forall>ev \<in> set pre.
        fst (transport_attempt_tx cfg segment segment_len dest_port cur ev) \<in>
          {TRANSPORT_ATTEMPT_TX_NOT_ACKNOWLEDGED, TRANSPORT_ATTEMPT_TX_NOT_AN_ACK,
           TRANSPORT_ATTEMPT_TX_OLD_ACK}"
  then have again: "\<forall>ev \<in> set pre.
      tried_again (fst (transport_attempt_tx cfg segment segment_len dest_port cur ev))"
    by (auto simp add: tried_again_def)
  {
    assume "length pre < TRANSPORT_TX_ATTEMPT_LIMIT \<and> hopefully_an_ack ! 4 = SEGID_ACK \<and>
       hopefully_an_ack ! 1 = (if cur = 0 then 1 else 0)"
    then have n: "length pre < 10" and good: "fst (transport_attempt_tx cfg segment segment_len dest_port cur
        (NETWORK_RX_SUCCESS hopefully_an_ack)) = TRANSPORT_ATTEMPT_TX_SUCCESS"
      by (auto simp add: TRANSPORT_TX_ATTEMPT_LIMIT_def transport_attempt_tx_def Let_def)
    from n have le: "0 + length pre \<le> 10" by simp
    show "transport_keep_trying_to_tx cfg segment segment_len dest_port cur
           (pre @ NETWORK_RX_SUCCESS hopefully_an_ack # evs) =
         Some (TRANSPORT_KEEP_TRYING_TO_TX_SUCCESS,
               concat (replicate (length pre) (retry_effects cfg segment segment_len dest_port)) @
                 attempt_effects cfg segment segment_len dest_port,
               evs)"
      unfolding transport_keep_trying_to_tx_def keep_trying_to_tx_loop_retries [OF again le]
      using n by (simp add: keep_trying_to_tx_loop_success [OF _ good])
  }
  {
    assume "length pre = TRANSPORT_TX_ATTEMPT_LIMIT"
    then have n: "length pre = 10" by (simp add: TRANSPORT_TX_ATTEMPT_LIMIT_def)
    then have le: "0 + length pre \<le> 10" by simp
    show "transport_keep_trying_to_tx cfg segment segment_len dest_port cur (pre @ evs) =
         Some (TRANSPORT_KEEP_TRYING_TO_TX_REACHED_ATTEMPT_LIMIT,
               concat (replicate TRANSPORT_TX_ATTEMPT_LIMIT
                         (retry_effects cfg segment segment_len dest_port)),
               evs)"
      unfolding transport_keep_trying_to_tx_def keep_trying_to_tx_loop_retries [OF again le]
      by (simp add: n keep_trying_to_tx_loop_limit TRANSPORT_TX_ATTEMPT_LIMIT_def)
  }
next
  let ?som = "start_segment cfg (unat message_len) dest_port 0"
  let ?pre = "replicate TRANSPORT_TX_ATTEMPT_LIMIT NETWORK_RX_TIMEOUT"
  have again: "\<forall>ev \<in> set ?pre.
      tried_again (fst (transport_attempt_tx cfg ?som START_SEGMENT_HEADER_LEN dest_port 0 ev))"
    by (simp add: tried_again_def transport_attempt_tx_def Let_def)
  have le: "0 + length ?pre \<le> 10" by (simp add: TRANSPORT_TX_ATTEMPT_LIMIT_def)
  have "transport_keep_trying_to_tx cfg ?som START_SEGMENT_HEADER_LEN dest_port 0 (?pre @ evs) =
      Some (TRANSPORT_KEEP_TRYING_TO_TX_REACHED_ATTEMPT_LIMIT,
            concat (replicate TRANSPORT_TX_ATTEMPT_LIMIT
                      (retry_effects cfg ?som START_SEGMENT_HEADER_LEN dest_port)),
            evs)"
    unfolding transport_keep_trying_to_tx_def keep_trying_to_tx_loop_retries [OF again le]
    by (simp add: keep_trying_to_tx_loop_limit TRANSPORT_TX_ATTEMPT_LIMIT_def)
  then show "transport_tx cfg message message_len dest_port (?pre @ evs) =
     Some (TRANSPORT_TX_REACHED_ATTEMPT_LIMIT,
           concat (replicate TRANSPORT_TX_ATTEMPT_LIMIT
                     (retry_effects cfg ?som START_SEGMENT_HEADER_LEN dest_port)),
           evs)"
    by (simp add: transport_tx_def)
qed



theorem transport_keep_trying_to_tx_attempt_limit_witness:
  "transport_keep_trying_to_tx rover_config start_of_one_byte 7 0x0A 0
     [NETWORK_RX_TIMEOUT, ack_with 0, NETWORK_RX_SUCCESS end_of_message, ack_with 1,
      NETWORK_RX_TIMEOUT] =
   Some (TRANSPORT_KEEP_TRYING_TO_TX_SUCCESS,
         [NetworkTx start_of_one_byte 7 0x0A 0x0C, DelayMs 250,
          NetworkTx start_of_one_byte 7 0x0A 0x0C, DelayMs 250,
          NetworkTx start_of_one_byte 7 0x0A 0x0C, DelayMs 250,
          NetworkTx start_of_one_byte 7 0x0A 0x0C],
         [NETWORK_RX_TIMEOUT]) \<and>
   transport_keep_trying_to_tx rover_config start_of_one_byte 7 0x0A 0
     (replicate 10 (ack_with 0) @ [ack_with 1]) =
   Some (TRANSPORT_KEEP_TRYING_TO_TX_REACHED_ATTEMPT_LIMIT,
         concat (replicate 10 [NetworkTx start_of_one_byte 7 0x0A 0x0C, DelayMs 250]),
         [ack_with 1]) \<and>
   length (tx_payloads
     (concat (replicate 10 [NetworkTx start_of_one_byte 7 0x0A 0x0C, DelayMs 250]))) \<le> 10"
proof -
  let ?pre = "[NETWORK_RX_TIMEOUT, ack_with 0, NETWORK_RX_SUCCESS end_of_message]"
  let ?old = "replicate 10 (ack_with 0)"
  note c5 = transport_keep_trying_to_tx_attempt_limit
    [where cfg = rover_config and segment = start_of_one_byte and segment_len = 7
       and dest_port = "0x0A" and cur = 0]
  have retry: "retry_effects rover_config start_of_one_byte 7 0x0A =
      [NetworkTx start_of_one_byte 7 0x0A 0x0C, DelayMs 250]"
    by (simp add: retry_effects_def rover_config_def TRANSPORT_TX_RETRY_DELAY_MS_def)
  have attempt: "attempt_effects rover_config start_of_one_byte 7 0x0A =
      [NetworkTx start_of_one_byte 7 0x0A 0x0C]"
    by (simp add: attempt_effects_def rover_config_def)
  have pre: "\<forall>ev \<in> set ?pre.
      fst (transport_attempt_tx rover_config start_of_one_byte 7 0x0A 0 ev) \<in>
        {TRANSPORT_ATTEMPT_TX_NOT_ACKNOWLEDGED, TRANSPORT_ATTEMPT_TX_NOT_AN_ACK,
         TRANSPORT_ATTEMPT_TX_OLD_ACK}"
    by (simp add: transport_attempt_tx_def Let_def ack_with_def end_of_message_def SEGID_ACK_def)
  have old: "\<forall>ev \<in> set ?old.
      fst (transport_attempt_tx rover_config start_of_one_byte 7 0x0A 0 ev) \<in>
        {TRANSPORT_ATTEMPT_TX_NOT_ACKNOWLEDGED, TRANSPORT_ATTEMPT_TX_NOT_AN_ACK,
         TRANSPORT_ATTEMPT_TX_OLD_ACK}"
    by (simp add: transport_attempt_tx_def Let_def ack_with_def SEGID_ACK_def)
  have good: "length ?pre < TRANSPORT_TX_ATTEMPT_LIMIT \<and> [5, 1, 0x3C, 0x0A, 0x0A :: u8] ! 4 = SEGID_ACK \<and>
      [5, 1, 0x3C, 0x0A, 0x0A :: u8] ! 1 = (if (0 :: u8) = 0 then 1 else 0)"
    by (simp add: TRANSPORT_TX_ATTEMPT_LIMIT_def SEGID_ACK_def)
  have ten: "length ?old = TRANSPORT_TX_ATTEMPT_LIMIT"
    by (simp add: TRANSPORT_TX_ATTEMPT_LIMIT_def)
  from c5 [where pre = ?pre and hopefully_an_ack = "[5, 1, 0x3C, 0x0A, 0x0A]"
      and evs = "[NETWORK_RX_TIMEOUT]"] pre good
  have "transport_keep_trying_to_tx rover_config start_of_one_byte 7 0x0A 0
      (?pre @ NETWORK_RX_SUCCESS [5, 1, 0x3C, 0x0A, 0x0A] # [NETWORK_RX_TIMEOUT]) =
     Some (TRANSPORT_KEEP_TRYING_TO_TX_SUCCESS,
       concat (replicate (length ?pre) (retry_effects rover_config start_of_one_byte 7 0x0A)) @
         attempt_effects rover_config start_of_one_byte 7 0x0A, [NETWORK_RX_TIMEOUT])"
    by blast
  then have first: "transport_keep_trying_to_tx rover_config start_of_one_byte 7 0x0A 0
     [NETWORK_RX_TIMEOUT, ack_with 0, NETWORK_RX_SUCCESS end_of_message, ack_with 1,
      NETWORK_RX_TIMEOUT] =
   Some (TRANSPORT_KEEP_TRYING_TO_TX_SUCCESS,
         [NetworkTx start_of_one_byte 7 0x0A 0x0C, DelayMs 250,
          NetworkTx start_of_one_byte 7 0x0A 0x0C, DelayMs 250,
          NetworkTx start_of_one_byte 7 0x0A 0x0C, DelayMs 250,
          NetworkTx start_of_one_byte 7 0x0A 0x0C],
         [NETWORK_RX_TIMEOUT])"
    by (simp add: retry attempt ack_with_def numeral_3_eq_3)
  from c5 [where pre = ?old and evs = "[ack_with 1]"] old ten
  have "transport_keep_trying_to_tx rover_config start_of_one_byte 7 0x0A 0 (?old @ [ack_with 1]) =
     Some (TRANSPORT_KEEP_TRYING_TO_TX_REACHED_ATTEMPT_LIMIT,
       concat (replicate TRANSPORT_TX_ATTEMPT_LIMIT (retry_effects rover_config start_of_one_byte 7 0x0A)),
       [ack_with 1])"
    by blast
  then have second: "transport_keep_trying_to_tx rover_config start_of_one_byte 7 0x0A 0
     (replicate 10 (ack_with 0) @ [ack_with 1]) =
   Some (TRANSPORT_KEEP_TRYING_TO_TX_REACHED_ATTEMPT_LIMIT,
         concat (replicate 10 [NetworkTx start_of_one_byte 7 0x0A 0x0C, DelayMs 250]),
         [ack_with 1])"
    by (simp only: retry TRANSPORT_TX_ATTEMPT_LIMIT_def)
  from c5 [where evs = "replicate 10 (ack_with 0) @ [ack_with 1]"] second
  have "length (tx_payloads
      (concat (replicate 10 [NetworkTx start_of_one_byte 7 0x0A 0x0C, DelayMs 250]))) \<le>
      TRANSPORT_TX_ATTEMPT_LIMIT"
    by blast
  then have third: "length (tx_payloads
      (concat (replicate 10 [NetworkTx start_of_one_byte 7 0x0A 0x0C, DelayMs 250]))) \<le> 10"
    by (simp only: TRANSPORT_TX_ATTEMPT_LIMIT_def)
  from first second third show ?thesis by (intro conjI)
qed




lemma data_segment_seq [simp]:
  "data_segment cfg message message_len dest_port cur bytes_remaining ! Suc 0 = cur"
  by (simp add: data_segment_def)

lemma data_segment_id [simp]:
  "data_segment cfg message message_len dest_port cur bytes_remaining ! 4 = SEGID_DATA"
  by (simp add: data_segment_def)
































section \<open>Network layer: forwarding and the length byte\<close>

text \<open>
  C1 at a packet for 0x0C that reaches the node 0x0B: \<open>network_rx\<close> calls
  \<open>network_tx(packet, packet_len, packet[1], packet[2])\<close>, that is with the whole
  received packet as payload. The packet sent on has the destination and source bytes
  of the received one and is not delivered upward (what \<open>network_rx\<close> returns is
  the payload of the next packet), but its length byte is 10 where 7 was received and
  its body is the received packet from its length byte on: the segment bytes 0x11, 0x22,
  0x33, 0x44 stand at the offsets 6 to 9 where the received packet has them at 3 to 6.
\<close>

theorem network_rx_forwards_rewrapped:
  "network_rx forwarder_config radio_addr 28 [packet_for_0c, packet_for_0b] =
     ([\<lparr>dl_payload = [Some 10, Some 0x0C, Some 0x0A,
                       Some 7, Some 0x0C, Some 0x0A, Some 0x11, Some 0x22, Some 0x33, Some 0x44],
        dl_payload_len = 10,
        dl_addr = Some (radio_addr 0x0B)\<rparr>],
      Some (Inr ([Some 0x55, Some 0x66], 2, [])))"
  by (simp add: network_tx_def next_hop_def forwarder_config_def packet_for_0c_def
      packet_for_0b_def PACKET_HEADER_LEN_def MAX_PACKET_LEN_def INT_MAX_def byte_at_def
      Let_def upt_rec)

lemma network_tx_defined:
  assumes "0 \<le> payload_len" "payload_len + int PACKET_HEADER_LEN \<le> INT_MAX"
  shows "network_tx resolve payload payload_len dest src =
     Some \<lparr>dl_payload =
             [Some (word_of_int (payload_len + int PACKET_HEADER_LEN)),
              Some (word_of_int dest), Some (word_of_int src)]
             @ map (byte_at payload) [0..<min (nat payload_len) 28]
             @ replicate (nat payload_len - min (nat payload_len) 28) None,
           dl_payload_len = word_of_int (payload_len + int PACKET_HEADER_LEN),
           dl_addr = map_option resolve (next_hop dest)\<rparr>"
  using assms by (simp add: network_tx_def Let_def MAX_PACKET_LEN_def PACKET_HEADER_LEN_def)

lemma sint_char:
  assumes "- 128 \<le> k" "k \<le> 127"
  shows "sint (word_of_int k :: u8) = k"
proof -
  have "signed_take_bit 7 k = k"
    using assms by (intro signed_take_bit_int_eq_self) simp_all
  then show ?thesis by (simp only: sint_sbintrunc') simp
qed

lemma sint_char_high:
  assumes "128 \<le> k" "k \<le> 255"
  shows "sint (word_of_int k :: u8) = k - 256"
proof -
  have "(word_of_int k :: u8) = word_of_int (k - 256)"
    by simp
  moreover have "sint (word_of_int (k - 256) :: u8) = k - 256"
    using assms by (intro sint_char) simp_all
  ultimately show ?thesis by (simp only:)
qed

lemma uint_byte: "uint (word_of_int k :: u8) = k mod 256"
  by (simp add: uint_word_of_int)

text \<open>
  C10, as amended. For a payload length from 0 up to \<open>INT_MAX - 3\<close>, \<open>network_tx\<close>
  builds an array of \<open>payload_len + PACKET_HEADER_LEN\<close> cells. The length byte
  \<open>packet[0]\<close> holds the low eight bits of \<open>payload_len + PACKET_HEADER_LEN\<close>, and
  the same byte is the length that \<open>data_link_tx\<close> receives: read as an unsigned
  byte it is \<open>(payload_len + PACKET_HEADER_LEN) mod 256\<close>, the sum itself as long as
  the sum is at most 255, and read as a \<open>char\<close>, the way \<open>network_rx\<close> reads it
  back, it is the sum as long as the sum is at most 127 and the sum less 256, a negative
  number, from 128 to 255. \<open>payload[i]\<close> is copied to
  \<open>packet[i + PACKET_HEADER_LEN]\<close> for \<open>i\<close> below \<open>payload_len\<close> and below 28,
  and the cells for the payload indices from 28 on are never written. So when
  \<open>payload_len\<close> exceeds 28 and the sum is at most 255, the declared length exceeds
  the 31 bytes placed in the packet, and the last cell it counts holds no value.
\<close>

theorem network_tx_declared_length:
  assumes "0 \<le> payload_len" and "payload_len + int PACKET_HEADER_LEN \<le> INT_MAX"
  shows "\<exists>call. network_tx resolve payload payload_len dest src = Some call \<and>
     length (dl_payload call) = nat (payload_len + int PACKET_HEADER_LEN) \<and>
     dl_payload call ! 0 = Some (dl_payload_len call) \<and>
     uint (dl_payload_len call) = (payload_len + int PACKET_HEADER_LEN) mod 256 \<and>
     (payload_len + int PACKET_HEADER_LEN \<le> 255 \<longrightarrow>
        uint (dl_payload_len call) = payload_len + int PACKET_HEADER_LEN) \<and>
     (payload_len + int PACKET_HEADER_LEN \<le> 127 \<longrightarrow>
        sint (dl_payload_len call) = payload_len + int PACKET_HEADER_LEN) \<and>
     (128 \<le> payload_len + int PACKET_HEADER_LEN \<and> payload_len + int PACKET_HEADER_LEN \<le> 255 \<longrightarrow>
        sint (dl_payload_len call) = payload_len + int PACKET_HEADER_LEN - 256) \<and>
     (\<forall>i. i < nat payload_len \<and> i < MAX_PACKET_LEN - PACKET_HEADER_LEN \<longrightarrow>
        dl_payload call ! (i + PACKET_HEADER_LEN) = byte_at payload i) \<and>
     (\<forall>i. i < nat payload_len \<and> MAX_PACKET_LEN - PACKET_HEADER_LEN \<le> i \<longrightarrow>
        dl_payload call ! (i + PACKET_HEADER_LEN) = None) \<and>
     (int (MAX_PACKET_LEN - PACKET_HEADER_LEN) < payload_len \<and>
      payload_len + int PACKET_HEADER_LEN \<le> 255 \<longrightarrow>
        int MAX_PACKET_LEN < uint (dl_payload_len call) \<and>
        dl_payload call ! (nat (uint (dl_payload_len call)) - 1) = None)"
proof -
  let ?n = "nat payload_len"
  let ?sum = "payload_len + int PACKET_HEADER_LEN"
  let ?call = "\<lparr>dl_payload =
             [Some (word_of_int ?sum), Some (word_of_int dest), Some (word_of_int src)]
             @ map (byte_at payload) [0..<min ?n 28]
             @ replicate (?n - min ?n 28) None,
           dl_payload_len = word_of_int ?sum,
           dl_addr = map_option resolve (next_hop dest)\<rparr>"
  have call: "network_tx resolve payload payload_len dest src = Some ?call"
    by (rule network_tx_defined [OF assms])
  have len: "length (dl_payload ?call) = nat ?sum"
    using assms by (simp add: PACKET_HEADER_LEN_def)
  have first: "dl_payload ?call ! 0 = Some (dl_payload_len ?call)"
    by simp
  have unsigned: "uint (dl_payload_len ?call) = ?sum mod 256"
    by (simp only: data_link_tx_call.select_convs uint_byte)
  have small: "uint (dl_payload_len ?call) = ?sum" if "?sum \<le> 255"
    using assms that unsigned by (simp add: PACKET_HEADER_LEN_def)
  have char: "sint (dl_payload_len ?call) = ?sum" if "?sum \<le> 127"
  proof -
    have "sint (word_of_int ?sum :: u8) = ?sum"
      using assms that by (intro sint_char) simp_all
    then show ?thesis by simp
  qed
  have negative: "sint (dl_payload_len ?call) = ?sum - 256" if "128 \<le> ?sum \<and> ?sum \<le> 255"
  proof -
    have "sint (word_of_int ?sum :: u8) = ?sum - 256"
      using that by (intro sint_char_high) simp_all
    then show ?thesis by simp
  qed
  have copied: "dl_payload ?call ! (i + PACKET_HEADER_LEN) = byte_at payload i"
    if "i < ?n \<and> i < MAX_PACKET_LEN - PACKET_HEADER_LEN" for i
  proof -
    from that have i: "i < min ?n 28"
      by (simp add: MAX_PACKET_LEN_def PACKET_HEADER_LEN_def)
    have "dl_payload ?call ! (i + PACKET_HEADER_LEN) =
        (map (byte_at payload) [0..<min ?n 28] @ replicate (?n - min ?n 28) None) ! i"
      by (simp add: PACKET_HEADER_LEN_def numeral_3_eq_3)
    also have "\<dots> = byte_at payload i"
      using i by (simp add: nth_append)
    finally show ?thesis .
  qed
  have unwritten: "dl_payload ?call ! (i + PACKET_HEADER_LEN) = None"
    if "i < ?n \<and> MAX_PACKET_LEN - PACKET_HEADER_LEN \<le> i" for i
  proof -
    from that have i: "28 \<le> i" "i < ?n"
      by (simp_all add: MAX_PACKET_LEN_def PACKET_HEADER_LEN_def)
    have "dl_payload ?call ! (i + PACKET_HEADER_LEN) =
        (map (byte_at payload) [0..<min ?n 28] @ replicate (?n - min ?n 28) None) ! i"
      by (simp add: PACKET_HEADER_LEN_def numeral_3_eq_3)
    also have "\<dots> = None"
      using i by (simp add: nth_append)
    finally show ?thesis .
  qed
  have beyond: "int MAX_PACKET_LEN < uint (dl_payload_len ?call) \<and>
      dl_payload ?call ! (nat (uint (dl_payload_len ?call)) - 1) = None"
    if "int (MAX_PACKET_LEN - PACKET_HEADER_LEN) < payload_len \<and> ?sum \<le> 255"
  proof -
    from that have big: "28 < payload_len" and fits: "?sum \<le> 255"
      by (simp_all add: MAX_PACKET_LEN_def PACKET_HEADER_LEN_def)
    from small [OF fits] have declared: "uint (dl_payload_len ?call) = ?sum" .
    from big have "?n - 1 < ?n \<and> MAX_PACKET_LEN - PACKET_HEADER_LEN \<le> ?n - 1"
      by (simp add: MAX_PACKET_LEN_def PACKET_HEADER_LEN_def)
    from unwritten [OF this]
    have "dl_payload ?call ! ((?n - 1) + PACKET_HEADER_LEN) = None" .
    moreover have "nat ?sum - 1 = (?n - 1) + PACKET_HEADER_LEN"
      using big by (simp add: PACKET_HEADER_LEN_def)
    ultimately have "dl_payload ?call ! (nat ?sum - 1) = None"
      by (simp only:)
    moreover have "int MAX_PACKET_LEN < ?sum"
      using big by (simp add: MAX_PACKET_LEN_def PACKET_HEADER_LEN_def)
    ultimately show ?thesis by (simp only: declared)
  qed
  from call len first unsigned small char negative copied unwritten beyond show ?thesis
    by (intro exI [of _ ?call] conjI impI allI) (simp_all only:)
qed

theorem network_tx_declared_length_witness:
  "network_tx radio_addr full_packet 31 0x0C 0x0A =
     Some \<lparr>dl_payload = map Some ([34, 0x0C, 0x0A] @ take 28 full_packet) @ [None, None, None],
           dl_payload_len = 34,
           dl_addr = Some (radio_addr 0x0B)\<rparr> \<and>
   int MAX_PACKET_LEN < uint (34 :: u8) \<and>
   (map Some ([34, 0x0C, 0x0A] @ take 28 full_packet) @ [None, None, None]) ! 33 = None"
proof -
  have run: "network_tx radio_addr full_packet 31 0x0C 0x0A =
     Some \<lparr>dl_payload = map Some ([34, 0x0C, 0x0A] @ take 28 full_packet) @ [None, None, None],
           dl_payload_len = 34,
           dl_addr = Some (radio_addr 0x0B)\<rparr>"
    by (simp add: network_tx_def next_hop_def full_packet_def PACKET_HEADER_LEN_def
        MAX_PACKET_LEN_def INT_MAX_def byte_at_def Let_def upt_rec numeral_3_eq_3)
  have pre: "(0 :: int) \<le> 31" "31 + int PACKET_HEADER_LEN \<le> INT_MAX"
    "int (MAX_PACKET_LEN - PACKET_HEADER_LEN) < 31 \<and> 31 + int PACKET_HEADER_LEN \<le> 255"
    by (simp_all add: PACKET_HEADER_LEN_def MAX_PACKET_LEN_def INT_MAX_def)
  from network_tx_declared_length [OF pre(1,2), of radio_addr full_packet "0x0C" "0x0A"]
  obtain call where c: "network_tx radio_addr full_packet 31 0x0C 0x0A = Some call"
    and beyond: "int (MAX_PACKET_LEN - PACKET_HEADER_LEN) < 31 \<and> 31 + int PACKET_HEADER_LEN \<le> 255 \<longrightarrow>
        int MAX_PACKET_LEN < uint (dl_payload_len call) \<and>
        dl_payload call ! (nat (uint (dl_payload_len call)) - 1) = None"
    by blast
  from c run have call: "call =
      \<lparr>dl_payload = map Some ([34, 0x0C, 0x0A] @ take 28 full_packet) @ [None, None, None],
       dl_payload_len = 34,
       dl_addr = Some (radio_addr 0x0B)\<rparr>"
    by simp
  from beyond pre(3) have "int MAX_PACKET_LEN < uint (dl_payload_len call) \<and>
      dl_payload call ! (nat (uint (dl_payload_len call)) - 1) = None"
    by blast
  then have "int MAX_PACKET_LEN < uint (34 :: u8) \<and>
      (map Some ([34, 0x0C, 0x0A] @ take 28 full_packet) @ [None, None, None]) ! 33 = None"
    by (simp add: call)
  with run show ?thesis by (simp only: simp_thms)
qed

text \<open>
  C10 as stated fails once \<open>payload_len + PACKET_HEADER_LEN\<close> no longer fits the
  length byte. For a payload of 253 bytes the sum is 256: \<open>packet[0]\<close> and the length
  handed to \<open>data_link_tx\<close> are 0, neither 256 nor more than the 28 payload bytes that
  are placed in the packet. And when a packet whose length byte is 0x7D is passed on,
  with \<open>payload_len = 125\<close>, the length byte of the new packet is 0x80, which
  \<open>network_rx\<close> reads back from the \<open>char\<close> as -128.
\<close>

theorem network_tx_length_byte_counterexample:
  "network_tx radio_addr (replicate 253 0x41) 253 0x0C 0x0A =
     Some \<lparr>dl_payload = [Some 0, Some 0x0C, Some 0x0A] @ replicate 28 (Some 0x41) @ replicate 225 None,
           dl_payload_len = 0,
           dl_addr = Some (radio_addr 0x0B)\<rparr> \<and>
   uint (0 :: u8) \<noteq> 253 + int PACKET_HEADER_LEN \<and>
   sint (0 :: u8) \<noteq> 253 + int PACKET_HEADER_LEN \<and>
   \<not> int (MAX_PACKET_LEN - PACKET_HEADER_LEN) < uint (0 :: u8) \<and>
   network_tx radio_addr ([0x7D, 0x0C, 0x0A] @ replicate 28 0x41) 125 0x0C 0x0A =
     Some \<lparr>dl_payload = [Some 0x80, Some 0x0C, Some 0x0A, Some 0x7D, Some 0x0C, Some 0x0A]
                          @ replicate 25 (Some 0x41) @ replicate 97 None,
           dl_payload_len = 0x80,
           dl_addr = Some (radio_addr 0x0B)\<rparr> \<and>
   sint (0x80 :: u8) = - 128 \<and>
   sint (0x80 :: u8) \<noteq> 125 + int PACKET_HEADER_LEN"
proof -
  have "map (byte_at (replicate 253 (0x41 :: u8))) [0..<28] = replicate 28 (Some 0x41)"
    by (rule nth_equalityI) (simp_all add: byte_at_def)
  moreover have "map (byte_at ([0x7D, 0x0C, 0x0A] @ replicate 28 (0x41 :: u8))) [0..<28] =
      [Some 0x7D, Some 0x0C, Some 0x0A] @ replicate 25 (Some 0x41)"
    by (rule nth_equalityI) (auto simp add: byte_at_def nth_Cons' nth_append)
  ultimately show ?thesis
    by (simp add: network_tx_def next_hop_def PACKET_HEADER_LEN_def MAX_PACKET_LEN_def
        INT_MAX_def Let_def)
qed

end
